theory Spec2Isabelle
  imports Main "HOL-Library.Word" "HOL-Library.Signed_Division"
begin

unbundle bit_operations_syntax

section \<open>Machine integers and outcomes\<close>

text \<open>
  Every integer of the source is an \<open>int32_t\<close> (or \<open>int\<close>, also 32 bits on the target):
  chunk sizes, alignments, offsets and chunk indices.  They are 32-bit words here; \<open>sint\<close>
  reads the signed value, comparisons of the source are the signed ones.  Signed overflow
  is undefined in C++; the model takes the two's-complement result that the compiled code
  produces, so \<open>+\<close>, \<open>-\<close> and \<open>*\<close> wrap around.
\<close>

type_synonym int32 = "32 word"

text \<open>
  The error kinds named by the specification.  The source can raise only the first one
  (through \<open>TLLM_CHECK_ERROR\<close>); no statement of the source raises \<open>IndexOutOfRange\<close>.
\<close>

datatype error = InvalidAlignment | IndexOutOfRange

text \<open>
  What a call does: it returns a value, it throws an error that reaches the caller, or it
  runs into undefined behaviour (a read past the end of a \<open>std::vector\<close> through
  \<open>operator[]\<close>, which checks nothing; a division by zero).
\<close>

datatype 'a outcome = Returns 'a | Throws error | Undefined

fun obind :: "'a outcome \<Rightarrow> ('a \<Rightarrow> 'b outcome) \<Rightarrow> 'b outcome" where
  "obind (Returns x) f = f x"
| "obind (Throws e) f = Throws e"
| "obind Undefined f = Undefined"

text \<open>\<open>v[i]\<close> on a \<open>std::vector\<close>: the element when the index is in range, undefined otherwise.\<close>

definition vec_at :: "'a list \<Rightarrow> int32 \<Rightarrow> 'a outcome" where
  "vec_at v i =
     (if 0 \<le> sint i \<and> sint i < int (length v) then Returns (v ! nat (sint i)) else Undefined)"

text \<open>
  Modelled from the spec: the macro \<open>TLLM_CHECK_ERROR\<close> is defined outside the sources at
  hand.  The specification says that a failed alignment check fails with
  \<open>InvalidAlignment\<close> and that the failure propagates to the caller, so a failed check
  throws and a passed check continues.
\<close>

definition TLLM_CHECK_ERROR :: "bool \<Rightarrow> error \<Rightarrow> unit outcome" where
  "TLLM_CHECK_ERROR cond e = (if cond then Returns () else Throws e)"

section \<open>MemAllocatorHelper\<close>

record MemAllocatorHelper =
  mNumBytesAndAlignmentPerSmemChunk :: "(int32 \<times> int32) list"
  mFirstChunkReuse :: "bool list"

text \<open>The constructor stores the two vectors as they are given; it checks nothing.\<close>

definition MemAllocatorHelper :: "(int32 \<times> int32) list \<Rightarrow> bool list \<Rightarrow> MemAllocatorHelper" where
  "MemAllocatorHelper sizes reuse =
     \<lparr>mNumBytesAndAlignmentPerSmemChunk = sizes, mFirstChunkReuse = reuse\<rparr>"

definition getSizePaddedToAlignment :: "int32 \<Rightarrow> int32 \<Rightarrow> int32 outcome" where
  "getSizePaddedToAlignment sz alignment =
     obind (TLLM_CHECK_ERROR (alignment AND (alignment - 1) = 0) InvalidAlignment)
       (\<lambda>_. Returns ((sz + alignment - 1) AND NOT (alignment - 1)))"

text \<open>One iteration of the loop of \<open>getOffsetBeforeChunk\<close>: the new value of \<open>totalSize\<close>.\<close>

definition getOffsetBeforeChunk_body :: "MemAllocatorHelper \<Rightarrow> int32 \<Rightarrow> int32 \<Rightarrow> int32 outcome" where
  "getOffsetBeforeChunk_body h ii totalSize =
     obind (vec_at (mNumBytesAndAlignmentPerSmemChunk h) ii) (\<lambda>elem.
     obind (getSizePaddedToAlignment (fst elem) (snd elem)) (\<lambda>paddedSize.
     obind (vec_at (mFirstChunkReuse h) ii) (\<lambda>reuse.
       if reuse \<and> totalSize <s paddedSize then Returns paddedSize
       else if \<not> reuse then Returns (totalSize + paddedSize)
       else Returns totalSize)))"

function getOffsetBeforeChunk_loop ::
  "MemAllocatorHelper \<Rightarrow> int32 \<Rightarrow> int32 \<Rightarrow> int32 \<Rightarrow> int32 outcome" where
  "getOffsetBeforeChunk_loop h jj ii totalSize =
     (if ii <s jj then
        (case getOffsetBeforeChunk_body h ii totalSize of
           Returns t \<Rightarrow> getOffsetBeforeChunk_loop h jj (ii + 1) t
         | Throws e \<Rightarrow> Throws e
         | Undefined \<Rightarrow> Undefined)
      else Returns totalSize)"
  by pat_completeness auto

termination
proof (relation "measure (\<lambda>(h, jj, ii, t). nat (sint jj - sint ii))")
  show "wf (measure (\<lambda>(h, jj, ii, t). nat (sint jj - sint ii)))"
    by simp
next
  fix h :: MemAllocatorHelper and jj ii totalSize x1 :: int32
  assume below: "ii <s jj"
  have "sint jj < 2 ^ 31"
    using sint_lt [of jj] by simp
  with below have up: "sint ii + 1 < 2 ^ 31"
    by (simp add: word_sless_alt)
  have lo: "- (2 ^ 31) \<le> sint ii + 1"
    using sint_ge [of ii] by simp
  have "sint (ii + 1) = signed_take_bit 31 (sint ii + 1)"
    by (simp add: sint_word_ariths)
  also have "\<dots> = sint ii + 1"
    using lo up by (simp add: signed_take_bit_int_eq_self)
  finally have "sint (ii + 1) = sint ii + 1" .
  with below show "((h, jj, ii + 1, x1), (h, jj, ii, totalSize))
      \<in> measure (\<lambda>(h, jj, ii, t). nat (sint jj - sint ii))"
    by (simp add: word_sless_alt)
qed

declare getOffsetBeforeChunk_loop.simps [simp del]

definition getOffsetBeforeChunk :: "MemAllocatorHelper \<Rightarrow> int32 \<Rightarrow> int32 outcome" where
  "getOffsetBeforeChunk h jj = getOffsetBeforeChunk_loop h jj 0 0"

text \<open>
  The branch of \<open>getChunkOffset\<close> for a chunk that is not reused: the offset before the
  chunk, then the read of the chunk's alignment, then the padding.
\<close>

definition getChunkOffset_own :: "MemAllocatorHelper \<Rightarrow> int32 \<Rightarrow> int32 outcome" where
  "getChunkOffset_own h ii =
     obind (getOffsetBeforeChunk h ii) (\<lambda>offset.
     obind (vec_at (mNumBytesAndAlignmentPerSmemChunk h) ii) (\<lambda>elem.
       getSizePaddedToAlignment offset (snd elem)))"

text \<open>
  \<open>getChunkOffset\<close> calls itself at index 0 for a reused chunk.  When chunk 0 is itself
  marked as reused the recursion never ends: \<open>None\<close> is the call that does not return.
\<close>

partial_function (option) getChunkOffset :: "MemAllocatorHelper \<Rightarrow> int32 \<Rightarrow> int32 outcome option" where
  "getChunkOffset h ii =
     (case vec_at (mFirstChunkReuse h) ii of
        Returns reuse \<Rightarrow> if reuse then getChunkOffset h 0 else Some (getChunkOffset_own h ii)
      | Throws e \<Rightarrow> Some (Throws e)
      | Undefined \<Rightarrow> Some Undefined)"

text \<open>\<open>static_cast<int32_t>\<close> of the vector's size.\<close>

definition getTotalSize :: "MemAllocatorHelper \<Rightarrow> int32 outcome" where
  "getTotalSize h =
     getOffsetBeforeChunk h (word_of_nat (length (mNumBytesAndAlignmentPerSmemChunk h)))"

text \<open>
  The same function with a bound on the number of nested calls it may make to itself:
  \<open>getChunkOffset_within d\<close> is \<open>None\<close> when more than \<open>d\<close> delegations to chunk 0 would
  be needed.
\<close>

fun getChunkOffset_within :: "nat \<Rightarrow> MemAllocatorHelper \<Rightarrow> int32 \<Rightarrow> int32 outcome option" where
  "getChunkOffset_within d h ii =
     (case vec_at (mFirstChunkReuse h) ii of
        Returns reuse \<Rightarrow>
          if reuse then (case d of 0 \<Rightarrow> None | Suc d' \<Rightarrow> getChunkOffset_within d' h 0)
          else Some (getChunkOffset_own h ii)
      | Throws e \<Rightarrow> Some (Throws e)
      | Undefined \<Rightarrow> Some Undefined)"

declare getChunkOffset_within.simps [simp del]

section \<open>KernelTraits\<close>

text \<open>
  The headers \<open>Dtype.h\<close> and \<open>Enums.h\<close> are not among the sources.  What the constructor uses of
  them is a parameter of the model: the bit width of a data type, whether a data type is a
  block format, whether a split-K mode uses DSMEM, and the enumeration values
  \<open>Dtype::Fp32\<close>, \<open>Dtype::UInt32\<close> and \<open>AllReduceAlgo::TwoShot\<close>.  The bit width is
  taken to be a 32-bit \<open>int\<close>, so that every size is computed in \<open>int32_t\<close> arithmetic.
\<close>

record ('dtype, 'splitk, 'algo) headers =
  dtypeGetNumBits :: "'dtype \<Rightarrow> int32"
  dtypeIsBlockFmt :: "'dtype \<Rightarrow> bool"
  doesSplitKUseDsmem :: "'splitk \<Rightarrow> bool"
  Dtype_Fp32 :: 'dtype
  Dtype_UInt32 :: 'dtype
  AllReduceAlgo_TwoShot :: 'algo

text \<open>The seventeen arguments of the constructor, in its order.\<close>

record ('dtype, 'splitk, 'algo) KernelTraits_args =
  dtypeElt :: 'dtype
  dtypeC :: 'dtype
  dtypeAcc :: 'dtype
  tileM :: int32
  tileN :: int32
  tileK :: int32
  epilogueTileM :: int32
  epilogueTileN :: int32
  numStages :: int32
  numStagesMma :: int32
  numSlicesForSplitK :: int32
  numSlicesForSliceK :: int32
  splitK :: 'splitk
  useTmaStore :: bool
  transposeMmaOutput :: bool
  allReduceAlgo :: 'algo
  useDeepSeekFp8 :: bool

record KernelTraits =
  mSmemAllocatorHelper :: MemAllocatorHelper
  mTmemAllocatorHelper :: MemAllocatorHelper

text \<open>
  Integer division of the source: it truncates towards zero; a zero divisor and the
  quotient \<open>INT_MIN / -1\<close> are undefined.
\<close>

definition div32 :: "int32 \<Rightarrow> int32 \<Rightarrow> int32 outcome" where
  "div32 a b =
     (if b = 0 \<or> (a = - (2 ^ 31) \<and> b = - 1) then Undefined
      else Returns (word_of_int (sint a sdiv sint b)))"

definition ceilDiv :: "int32 \<Rightarrow> int32 \<Rightarrow> int32 outcome" where
  "ceilDiv m n = div32 (m + n - 1) n"

text \<open>A chunk as the constructor appends it: (bytes, alignment) and the reuse flag.\<close>

type_synonym chunk_info = "(int32 \<times> int32) \<times> bool"

definition smemChunkLoadA :: "('d, 's, 'a) headers \<Rightarrow> ('d, 's, 'a) KernelTraits_args \<Rightarrow> chunk_info outcome" where
  "smemChunkLoadA X a =
     obind (div32 (numStages a * tileM a * tileK a * dtypeGetNumBits X (dtypeElt a)) 8)
       (\<lambda>numSmemBytesLoadA. Returns ((numSmemBytesLoadA, 1024), False))"

definition smemChunkLoadB :: "('d, 's, 'a) headers \<Rightarrow> ('d, 's, 'a) KernelTraits_args \<Rightarrow> chunk_info outcome" where
  "smemChunkLoadB X a =
     obind (div32 (numStages a * tileN a * tileK a * dtypeGetNumBits X (dtypeElt a)) 8)
       (\<lambda>numSmemBytesLoadB. Returns ((numSmemBytesLoadB, 1024), False))"

definition smemChunkBShuffle :: "('d, 's, 'a) headers \<Rightarrow> ('d, 's, 'a) KernelTraits_args \<Rightarrow> chunk_info outcome" where
  "smemChunkBShuffle X a =
     obind (if 1 <s numSlicesForSliceK a
            then div32 (numStages a * tileN a * tileK a * dtypeGetNumBits X (dtypeElt a)) 8
            else Returns 0)
       (\<lambda>numSmemBytesLoadB. Returns ((numSmemBytesLoadB, 1024), False))"

text \<open>One iteration of the loop over \<open>resIdx\<close> (0 and 1) that appends the two GmemC chunks.\<close>

definition smemChunkGmemC ::
  "('d, 's, 'a) headers \<Rightarrow> ('d, 's, 'a) KernelTraits_args \<Rightarrow> int32 \<Rightarrow> chunk_info outcome" where
  "smemChunkGmemC X a resIdx =
     (let dtypeSmemC =
            (if allReduceAlgo a = AllReduceAlgo_TwoShot X \<or> 1 <s numSlicesForSplitK a
             then dtypeAcc a else dtypeC a);
          usesSmemForGmemC = (useTmaStore a \<or> doesSplitKUseDsmem X (splitK a));
          m0 = (if doesSplitKUseDsmem X (splitK a) then numSlicesForSplitK a else 1);
          m1 = (if 1 <s numSlicesForSliceK a then m0 * numSlicesForSliceK a else m0);
          extraGmemCMultiplier = (if resIdx \<noteq> 0 \<and> \<not> useDeepSeekFp8 a then 0 else m1)
      in obind (if usesSmemForGmemC
                then div32 (extraGmemCMultiplier * epilogueTileM a * epilogueTileN a
                            * dtypeGetNumBits X dtypeSmemC) 8
                else Returns 0)
           (\<lambda>numBytesSmemStoreC.
              Returns ((numBytesSmemStoreC, 1024), doesSplitKUseDsmem X (splitK a) \<and> resIdx = 0)))"

definition smemChunkRowMax :: "('d, 's, 'a) headers \<Rightarrow> ('d, 's, 'a) KernelTraits_args \<Rightarrow> chunk_info outcome" where
  "smemChunkRowMax X a =
     (let numDqSfsCPerCta = (if transposeMmaOutput a then tileM a else tileN a)
      in obind (div32 ((if useDeepSeekFp8 a then numDqSfsCPerCta else 0)
                        * dtypeGetNumBits X (Dtype_Fp32 X)) 8)
           (\<lambda>numBytesSmemRowMax. Returns ((numBytesSmemRowMax, 16), False)))"

definition smemChunkSliceK :: "('d, 's, 'a) headers \<Rightarrow> ('d, 's, 'a) KernelTraits_args \<Rightarrow> chunk_info outcome" where
  "smemChunkSliceK X a =
     (let tileSize =
            (if 1 <s numSlicesForSliceK a
             then numSlicesForSliceK a * tileM a * numSlicesForSliceK a * tileN a else 0)
      in obind (div32 (tileSize * dtypeGetNumBits X (dtypeAcc a)) 8)
           (\<lambda>numBytesSmemTile. Returns ((numBytesSmemTile, 16), False)))"

definition tmemChunkD :: "('d, 's, 'a) headers \<Rightarrow> ('d, 's, 'a) KernelTraits_args \<Rightarrow> chunk_info outcome" where
  "tmemChunkD X a =
     obind (div32 (numSlicesForSliceK a * tileN a * numStagesMma a * dtypeGetNumBits X (dtypeAcc a))
              (dtypeGetNumBits X (Dtype_UInt32 X)))
       (\<lambda>numTmemColsD. Returns ((numTmemColsD, 2), False))"

definition tmemChunkA :: "('d, 's, 'a) headers \<Rightarrow> ('d, 's, 'a) KernelTraits_args \<Rightarrow> chunk_info outcome" where
  "tmemChunkA X a =
     obind (if 1 <s numSlicesForSliceK a
            then obind (div32 (numSlicesForSliceK a * dtypeGetNumBits X (Dtype_UInt32 X))
                          (dtypeGetNumBits X (dtypeElt a)))
                   (\<lambda>d. div32 (numStages a * tileK a) d)
            else Returns 0)
       (\<lambda>numTmemColsA. Returns ((numTmemColsA, 4), False))"

definition tmemChunkSf ::
  "('d, 's, 'a) headers \<Rightarrow> ('d, 's, 'a) KernelTraits_args \<Rightarrow> int32 \<Rightarrow> chunk_info outcome" where
  "tmemChunkSf X a tileMN =
     (let useBlockScaling = dtypeIsBlockFmt X (dtypeElt a)
      in obind (if useBlockScaling
                then obind (div32 (tileK a) 64) (\<lambda>q.
                     obind (ceilDiv tileMN 64) (\<lambda>c. Returns (q * 2 * c * numStages a)))
                else Returns 0)
           (\<lambda>numTmemColsSf. Returns ((numTmemColsSf, 2), False)))"

text \<open>
  The constructor: the chunks are computed in the order of the source and appended to the
  two vectors of each pool; the SMEM pool first, then the TMEM pool.
\<close>

fun collect :: "'a outcome list \<Rightarrow> 'a list outcome" where
  "collect [] = Returns []"
| "collect (c # cs) = obind c (\<lambda>x. obind (collect cs) (\<lambda>xs. Returns (x # xs)))"

definition makeHelper :: "chunk_info list \<Rightarrow> MemAllocatorHelper" where
  "makeHelper cs = MemAllocatorHelper (map fst cs) (map snd cs)"

definition KernelTraits ::
  "('d, 's, 'a) headers \<Rightarrow> ('d, 's, 'a) KernelTraits_args \<Rightarrow> KernelTraits outcome" where
  "KernelTraits X a =
     obind (collect [smemChunkLoadA X a, smemChunkLoadB X a, smemChunkBShuffle X a,
                     smemChunkGmemC X a 0, smemChunkGmemC X a 1,
                     smemChunkRowMax X a, smemChunkSliceK X a]) (\<lambda>smem.
     obind (collect [tmemChunkD X a, tmemChunkA X a,
                     tmemChunkSf X a (tileM a), tmemChunkSf X a (tileN a)]) (\<lambda>tmem.
       Returns \<lparr>mSmemAllocatorHelper = makeHelper smem, mTmemAllocatorHelper = makeHelper tmem\<rparr>))"

definition getSmemBufferSize :: "KernelTraits \<Rightarrow> int32 outcome" where
  "getSmemBufferSize traits = getTotalSize (mSmemAllocatorHelper traits)"

definition getTmemBufferSize :: "KernelTraits \<Rightarrow> int32 outcome" where
  "getTmemBufferSize traits = getTotalSize (mTmemAllocatorHelper traits)"

definition getSmemOffsetLoadA :: "KernelTraits \<Rightarrow> int32 outcome option" where
  "getSmemOffsetLoadA traits = getChunkOffset (mSmemAllocatorHelper traits) 0"

definition getSmemOffsetLoadB :: "KernelTraits \<Rightarrow> int32 outcome option" where
  "getSmemOffsetLoadB traits = getChunkOffset (mSmemAllocatorHelper traits) 1"

definition getSmemOffsetLoadAb :: "KernelTraits \<Rightarrow> int32 outcome option" where
  "getSmemOffsetLoadAb traits = getSmemOffsetLoadA traits"

definition getSmemOffsetLoadShuffleB :: "KernelTraits \<Rightarrow> int32 outcome option" where
  "getSmemOffsetLoadShuffleB traits = getChunkOffset (mSmemAllocatorHelper traits) 2"

definition getSmemOffsetGmemC :: "KernelTraits \<Rightarrow> int32 \<Rightarrow> int32 outcome option" where
  "getSmemOffsetGmemC traits resIdx = getChunkOffset (mSmemAllocatorHelper traits) (3 + resIdx)"

definition getSmemOffsetRowMax :: "KernelTraits \<Rightarrow> int32 outcome option" where
  "getSmemOffsetRowMax traits = getChunkOffset (mSmemAllocatorHelper traits) 5"

definition getSmemOffsetSliceK :: "KernelTraits \<Rightarrow> int32 outcome option" where
  "getSmemOffsetSliceK traits = getChunkOffset (mSmemAllocatorHelper traits) 6"

definition getTmemOffsetD :: "KernelTraits \<Rightarrow> int32 outcome option" where
  "getTmemOffsetD traits = getChunkOffset (mTmemAllocatorHelper traits) 0"

definition getTmemOffsetA :: "KernelTraits \<Rightarrow> int32 outcome option" where
  "getTmemOffsetA traits = getChunkOffset (mTmemAllocatorHelper traits) 1"

definition getTmemOffsetSfA :: "KernelTraits \<Rightarrow> int32 outcome option" where
  "getTmemOffsetSfA traits = getChunkOffset (mTmemAllocatorHelper traits) 2"

definition getTmemOffsetSfB :: "KernelTraits \<Rightarrow> int32 outcome option" where
  "getTmemOffsetSfB traits = getChunkOffset (mTmemAllocatorHelper traits) 3"

section \<open>The chunk sequence of the specification\<close>

text \<open>
  The specification speaks of one ordered sequence of chunk descriptors.  The planner
  built from such a sequence holds its sizes and alignments in the first vector and its
  reuse flags in the second, as the constructor of \<open>KernelTraits\<close> builds them.
\<close>

record ChunkDescriptor =
  sizeBytes :: int32
  alignment :: int32
  reuseFirstChunk :: bool

definition planner :: "ChunkDescriptor list \<Rightarrow> MemAllocatorHelper" where
  "planner C = MemAllocatorHelper (map (\<lambda>c. (sizeBytes c, alignment c)) C) (map reuseFirstChunk C)"

definition valid_index :: "ChunkDescriptor list \<Rightarrow> int32 \<Rightarrow> bool" where
  "valid_index C i \<longleftrightarrow> 0 \<le> sint i \<and> sint i < int (length C)"

definition chunk :: "ChunkDescriptor list \<Rightarrow> int32 \<Rightarrow> ChunkDescriptor" where
  "chunk C i = C ! nat (sint i)"

text \<open>A power of two, as a signed 32-bit value: one of \<open>1, 2, 4, \<dots>, 2 ^ 30\<close>.\<close>

definition isPowerOfTwo :: "int32 \<Rightarrow> bool" where
  "isPowerOfTwo a \<longleftrightarrow> (\<exists>k<31. sint a = 2 ^ k)"

definition pow2_alignments :: "ChunkDescriptor list \<Rightarrow> bool" where
  "pow2_alignments C \<longleftrightarrow> list_all (\<lambda>c. isPowerOfTwo (alignment c)) C"

definition nonneg_sizes :: "ChunkDescriptor list \<Rightarrow> bool" where
  "nonneg_sizes C \<longleftrightarrow> list_all (\<lambda>c. 0 \<le> sint (sizeBytes c)) C"

text \<open>
  A bound under which no sum of the planner leaves the range of \<open>int32_t\<close>: every padded
  size is below size + alignment, and every total is at most the sum of the padded sizes.
\<close>

definition fits_int32 :: "ChunkDescriptor list \<Rightarrow> bool" where
  "fits_int32 C \<longleftrightarrow> (\<Sum>c\<leftarrow>C. sint (sizeBytes c) + sint (alignment c)) < 2 ^ 31"

text \<open>
  The padded size as a 32-bit value: the smallest multiple of the alignment that is at
  least the size, reduced to 32 bits.  It is that multiple itself only when the multiple
  fits in \<open>int32_t\<close>; for a power of two it is what \<open>getSizePaddedToAlignment\<close> returns.
\<close>

definition roundUp :: "int32 \<Rightarrow> int32 \<Rightarrow> int32" where
  "roundUp sz a = word_of_int ((sint sz + sint a - 1) div sint a * sint a)"

definition paddedSize :: "ChunkDescriptor \<Rightarrow> int32" where
  "paddedSize c = roundUp (sizeBytes c) (alignment c)"

text \<open>
  The loop of \<open>getOffsetBeforeChunk\<close> as a fold over the first \<open>j\<close> chunks, on 32-bit
  values: every step compares and adds as the code does, with wrap-around.  It is a way
  to write the code, not the fold of the specification.
\<close>

definition offsetBefore_step :: "int32 \<Rightarrow> ChunkDescriptor \<Rightarrow> int32" where
  "offsetBefore_step tot c =
     (let padded = roundUp (sizeBytes c) (alignment c)
      in if reuseFirstChunk c \<and> tot <s padded then padded
         else if \<not> reuseFirstChunk c then tot + padded
         else tot)"

definition offsetBefore_fold :: "ChunkDescriptor list \<Rightarrow> nat \<Rightarrow> int32" where
  "offsetBefore_fold C j = foldl offsetBefore_step 0 (take j C)"

text \<open>Two half-open ranges of integers, each given by its start and its length, share a point.\<close>

definition ranges_intersect :: "int \<Rightarrow> int \<Rightarrow> int \<Rightarrow> int \<Rightarrow> bool" where
  "ranges_intersect o1 n1 o2 n2 \<longleftrightarrow> max o1 o2 < min (o1 + n1) (o2 + n2)"

text \<open>The sequence with the size of chunk \<open>k\<close> replaced by 0.\<close>

definition zero_size_at :: "ChunkDescriptor list \<Rightarrow> nat \<Rightarrow> ChunkDescriptor list" where
  "zero_size_at C k = C[k := (C ! k)\<lparr>sizeBytes := 0\<rparr>]"

section \<open>The scenarios of the specification\<close>

definition scenario1 :: "ChunkDescriptor list" where
  "scenario1 = [\<lparr>sizeBytes = 100, alignment = 16, reuseFirstChunk = False\<rparr>,
                \<lparr>sizeBytes = 50, alignment = 16, reuseFirstChunk = False\<rparr>]"

definition scenario2 :: "ChunkDescriptor list" where
  "scenario2 = [\<lparr>sizeBytes = 1, alignment = 1, reuseFirstChunk = False\<rparr>,
                \<lparr>sizeBytes = 1, alignment = 1, reuseFirstChunk = False\<rparr>,
                \<lparr>sizeBytes = 1024, alignment = 1, reuseFirstChunk = True\<rparr>]"

definition scenario3 :: "ChunkDescriptor list" where
  "scenario3 = [\<lparr>sizeBytes = 100, alignment = 16, reuseFirstChunk = False\<rparr>,
                \<lparr>sizeBytes = 50, alignment = 16, reuseFirstChunk = False\<rparr>,
                \<lparr>sizeBytes = 8, alignment = 1, reuseFirstChunk = True\<rparr>]"

definition scenario4 :: "ChunkDescriptor list" where
  "scenario4 = [\<lparr>sizeBytes = 10, alignment = 3, reuseFirstChunk = False\<rparr>]"

definition reused_bad_alignment :: "ChunkDescriptor list" where
  "reused_bad_alignment = [\<lparr>sizeBytes = 8, alignment = 16, reuseFirstChunk = False\<rparr>,
                           \<lparr>sizeBytes = 8, alignment = 3, reuseFirstChunk = True\<rparr>]"

definition overflowing :: "ChunkDescriptor list" where
  "overflowing = [\<lparr>sizeBytes = 1073741824, alignment = 1, reuseFirstChunk = False\<rparr>,
                  \<lparr>sizeBytes = 1073741824, alignment = 1, reuseFirstChunk = False\<rparr>,
                  \<lparr>sizeBytes = 1, alignment = 1, reuseFirstChunk = False\<rparr>]"

definition negative_size :: "ChunkDescriptor list" where
  "negative_size = [\<lparr>sizeBytes = - 16, alignment = 16, reuseFirstChunk = False\<rparr>,
                    \<lparr>sizeBytes = 0, alignment = 16, reuseFirstChunk = False\<rparr>]"

definition reused_third :: "ChunkDescriptor list" where
  "reused_third = [\<lparr>sizeBytes = 16, alignment = 16, reuseFirstChunk = False\<rparr>,
                   \<lparr>sizeBytes = 16, alignment = 16, reuseFirstChunk = False\<rparr>,
                   \<lparr>sizeBytes = 16, alignment = 16, reuseFirstChunk = True\<rparr>]"

definition tmem_like :: "ChunkDescriptor list" where
  "tmem_like = [\<lparr>sizeBytes = 2, alignment = 2, reuseFirstChunk = False\<rparr>,
                \<lparr>sizeBytes = 4, alignment = 4, reuseFirstChunk = False\<rparr>,
                \<lparr>sizeBytes = 2, alignment = 2, reuseFirstChunk = False\<rparr>,
                \<lparr>sizeBytes = 2, alignment = 2, reuseFirstChunk = False\<rparr>]"

definition two_large_chunks :: "ChunkDescriptor list" where
  "two_large_chunks = [\<lparr>sizeBytes = 1073741824, alignment = 1, reuseFirstChunk = False\<rparr>,
                       \<lparr>sizeBytes = 1073741824, alignment = 1, reuseFirstChunk = False\<rparr>]"

section \<open>The algorithm of the specification, on integers\<close>

text \<open>
  \<open>offsetBefore\<close> in the words of the specification, on unbounded integers: \<open>pad_int\<close> is
  \<open>roundUp\<close>, the smallest multiple of the alignment that is at least the size;
  \<open>step_int\<close> is one step of the accumulation (a reused chunk whose padded size exceeds
  the total sets the total, a chunk that is not reused adds its padded size, any other
  chunk leaves the total unchanged); \<open>offsetBefore_int C j\<close> is the fold from 0 over the
  first \<open>j\<close> chunks.  The other definitions of this section serve the proofs.
\<close>

definition pad_int :: "int \<Rightarrow> int \<Rightarrow> int" where
  "pad_int s a = (s + a - 1) div a * a"

definition step_int :: "int \<Rightarrow> ChunkDescriptor \<Rightarrow> int" where
  "step_int t c =
     (let p = pad_int (sint (sizeBytes c)) (sint (alignment c))
      in if reuseFirstChunk c \<and> t < p then p
         else if \<not> reuseFirstChunk c then t + p
         else t)"

definition weight :: "ChunkDescriptor list \<Rightarrow> int" where
  "weight C = (\<Sum>c\<leftarrow>C. sint (sizeBytes c) + sint (alignment c))"

definition sane :: "ChunkDescriptor \<Rightarrow> bool" where
  "sane c \<longleftrightarrow> isPowerOfTwo (alignment c) \<and> 0 \<le> sint (sizeBytes c)"

definition offsetBefore_int :: "ChunkDescriptor list \<Rightarrow> nat \<Rightarrow> int" where
  "offsetBefore_int C j = foldl step_int 0 (take j C)"

definition shrinks :: "ChunkDescriptor \<Rightarrow> ChunkDescriptor \<Rightarrow> bool" where
  "shrinks c' c \<longleftrightarrow> alignment c' = alignment c \<and> reuseFirstChunk c' = reuseFirstChunk c
     \<and> sint (sizeBytes c') \<le> sint (sizeBytes c) \<and> 0 < sint (alignment c)"

section \<open>The pools of KernelTraits as chunk sequences\<close>

text \<open>
  A chunk as the constructor appends it, seen as a chunk descriptor; the calls the named
  accessors make, one list per pool; and one configuration with the pools it yields.
\<close>

definition descriptor :: "chunk_info \<Rightarrow> ChunkDescriptor" where
  "descriptor c = \<lparr>sizeBytes = fst (fst c), alignment = snd (fst c), reuseFirstChunk = snd c\<rparr>"

definition smem_accessors :: "KernelTraits \<Rightarrow> int32 outcome option list" where
  "smem_accessors traits =
     [getSmemOffsetLoadA traits, getSmemOffsetLoadB traits, getSmemOffsetLoadAb traits,
      getSmemOffsetLoadShuffleB traits, getSmemOffsetGmemC traits 0, getSmemOffsetGmemC traits 1,
      getSmemOffsetRowMax traits, getSmemOffsetSliceK traits]"

definition tmem_accessors :: "KernelTraits \<Rightarrow> int32 outcome option list" where
  "tmem_accessors traits =
     [getTmemOffsetD traits, getTmemOffsetA traits, getTmemOffsetSfA traits, getTmemOffsetSfB traits]"

definition example_headers :: "(nat, bool, bool) headers" where
  "example_headers =
     \<lparr>dtypeGetNumBits = of_nat, dtypeIsBlockFmt = (\<lambda>d. d = 4), doesSplitKUseDsmem = (\<lambda>s. s),
      Dtype_Fp32 = 32, Dtype_UInt32 = 32, AllReduceAlgo_TwoShot = True\<rparr>"

definition example_args :: "(nat, bool, bool) KernelTraits_args" where
  "example_args =
     \<lparr>dtypeElt = 8, dtypeC = 16, dtypeAcc = 32, tileM = 128, tileN = 8, tileK = 128,
      epilogueTileM = 128, epilogueTileN = 8, numStages = 4, numStagesMma = 1,
      numSlicesForSplitK = 2, numSlicesForSliceK = 1, splitK = True, useTmaStore = True,
      transposeMmaOutput = False, allReduceAlgo = False, useDeepSeekFp8 = True\<rparr>"

definition example_traits :: KernelTraits where
  "example_traits =
     \<lparr>mSmemAllocatorHelper = MemAllocatorHelper
        [(65536, 1024), (4096, 1024), (0, 1024), (8192, 1024), (8192, 1024), (32, 16), (0, 16)]
        [False, False, False, True, False, False, False],
      mTmemAllocatorHelper = MemAllocatorHelper
        [(8, 2), (0, 4), (0, 2), (0, 2)] [False, False, False, False]\<rparr>"

section \<open>Evaluation of the planner on chunk sequences\<close>

lemma planner_sizes [simp]:
  "mNumBytesAndAlignmentPerSmemChunk (planner C) = map (\<lambda>c. (sizeBytes c, alignment c)) C"
  by (simp add: planner_def MemAllocatorHelper_def)

lemma planner_reuse [simp]: "mFirstChunkReuse (planner C) = map reuseFirstChunk C"
  by (simp add: planner_def MemAllocatorHelper_def)

lemma valid_index_nat: "valid_index C i \<Longrightarrow> nat (sint i) < length C"
  by (auto simp add: valid_index_def nat_less_iff)

lemma vec_at_map_valid: "valid_index C i \<Longrightarrow> vec_at (map f C) i = Returns (f (chunk C i))"
  using valid_index_nat [of C i] by (simp add: vec_at_def valid_index_def chunk_def)

lemma vec_at_map_invalid: "\<not> valid_index C i \<Longrightarrow> vec_at (map f C) i = Undefined"
  by (auto simp add: vec_at_def valid_index_def)

lemma and_not_mask_int: "y AND NOT (mask k) = (y div 2 ^ k) * 2 ^ k" for y :: int
proof -
  have "y AND NOT (mask k) = push_bit k (drop_bit k y)"
    by (auto simp add: bit_eq_iff bit_and_iff bit_not_iff bit_mask_iff bit_push_bit_iff bit_drop_bit_eq) 
  then show ?thesis
    by (simp add: push_bit_eq_mult drop_bit_eq_div)
qed

lemma isPowerOfTwo_word: "isPowerOfTwo a \<Longrightarrow> \<exists>k<31. a = 2 ^ k \<and> sint a = 2 ^ k"
proof -
  assume "isPowerOfTwo a"
  then obtain k where k: "k < 31" "sint a = 2 ^ k" by (auto simp: isPowerOfTwo_def)
  have "a = word_of_int (sint a)" by simp
  also have "\<dots> = 2 ^ k" by (simp only: k) simp
  finally show ?thesis using k by blast
qed

lemma pow2_check: "isPowerOfTwo a \<Longrightarrow> a AND (a - 1) = 0"
proof -
  assume "isPowerOfTwo a"
  then obtain k where "a = 2 ^ k" using isPowerOfTwo_word by blast
  then have "a - 1 = mask k" by (simp add: mask_eq_exp_minus_1)
  moreover have "(2 :: int32) ^ k AND mask k = 0"
    by (rule bit_eqI) (auto simp add: bit_and_iff bit_exp_iff bit_mask_iff)
  ultimately show ?thesis using \<open>a = 2 ^ k\<close> by simp
qed

lemma pad_eq_roundUp:
  assumes "isPowerOfTwo a"
  shows "(sz + a - 1) AND NOT (a - 1) = roundUp sz a"
proof -
  obtain k where k: "k < 31" "a = 2 ^ k" "sint a = 2 ^ k"
    using assms isPowerOfTwo_word by blast
  have "(sz + a - 1) AND NOT (a - 1)
      = word_of_int (sint sz + 2 ^ k - 1) AND NOT (word_of_int (mask k))"
    by (simp add: k mask_eq_exp_minus_1)
  also have "\<dots> = word_of_int ((sint sz + 2 ^ k - 1) AND NOT (mask k))"
    by (simp only: word_wi_log_defs)
  also have "\<dots> = roundUp sz a"
    by (simp only: roundUp_def k(3) and_not_mask_int)
  finally show ?thesis .
qed

lemma padded_pow2: "isPowerOfTwo a \<Longrightarrow> getSizePaddedToAlignment sz a = Returns (roundUp sz a)"
  by (simp add: getSizePaddedToAlignment_def TLLM_CHECK_ERROR_def pow2_check pad_eq_roundUp)

lemma pow2_alignments_chunk:
  "pow2_alignments C \<Longrightarrow> valid_index C i \<Longrightarrow> isPowerOfTwo (alignment (chunk C i))"
  using valid_index_nat [of C i] by (simp add: pow2_alignments_def chunk_def list_all_length)

lemma body_pow2:
  "valid_index C ii \<Longrightarrow> isPowerOfTwo (alignment (chunk C ii)) \<Longrightarrow>
   getOffsetBeforeChunk_body (planner C) ii t = Returns (offsetBefore_step t (chunk C ii))"
  by (simp add: getOffsetBeforeChunk_body_def vec_at_map_valid padded_pow2 offsetBefore_step_def)

lemma sint_succ_below:
  fixes ii jj :: int32
  assumes "ii <s jj"
  shows "sint (ii + 1) = sint ii + 1"
proof -
  have "sint jj < 2 ^ 31"
    using sint_lt [of jj] by simp
  with assms have up: "sint ii + 1 < 2 ^ 31"
    by (simp add: word_sless_alt)
  have lo: "- (2 ^ 31) \<le> sint ii + 1"
    using sint_ge [of ii] by simp
  have "sint (ii + 1) = signed_take_bit 31 (sint ii + 1)"
    by (simp add: sint_word_ariths)
  also have "\<dots> = sint ii + 1"
    using lo up by (simp add: signed_take_bit_int_eq_self)
  finally show ?thesis .
qed

lemma loop_fold:
  "pow2_alignments C \<Longrightarrow> 0 \<le> sint ii \<Longrightarrow> sint jj \<le> int (length C) \<Longrightarrow>
   getOffsetBeforeChunk_loop (planner C) jj ii t
     = Returns (foldl offsetBefore_step t (drop (nat (sint ii)) (take (nat (sint jj)) C)))"
proof (induction "planner C" jj ii t rule: getOffsetBeforeChunk_loop.induct)
  case (1 jj ii t)
  show ?case
  proof (cases "ii <s jj")
    case False
    then have "nat (sint jj) \<le> nat (sint ii)" by (simp add: word_sless_alt)
    then show ?thesis using False
      by (simp add: getOffsetBeforeChunk_loop.simps [of _ jj ii])
  next
    case True
    then have lt: "sint ii < sint jj" by (simp add: word_sless_alt)
    have valid: "valid_index C ii" using lt 1 by (simp add: valid_index_def)
    have body: "getOffsetBeforeChunk_body (planner C) ii t = Returns (offsetBefore_step t (chunk C ii))"
      using valid 1 by (simp add: body_pow2 pow2_alignments_chunk)
    have succ: "sint (ii + 1) = sint ii + 1" using True by (rule sint_succ_below)
    have n: "nat (sint ii) < length (take (nat (sint jj)) C)" using lt 1 by simp
    have dr: "drop (nat (sint ii)) (take (nat (sint jj)) C)
        = chunk C ii # drop (nat (sint (ii + 1))) (take (nat (sint jj)) C)"
      using Cons_nth_drop_Suc [OF n, symmetric] lt 1
      by (simp add: succ chunk_def nat_add_distrib)
    have "getOffsetBeforeChunk_loop (planner C) jj ii t
        = getOffsetBeforeChunk_loop (planner C) jj (ii + 1) (offsetBefore_step t (chunk C ii))"
      using True body by (simp add: getOffsetBeforeChunk_loop.simps [of _ jj ii])
    also have "\<dots> = Returns (foldl offsetBefore_step (offsetBefore_step t (chunk C ii))
         (drop (nat (sint (ii + 1))) (take (nat (sint jj)) C)))"
      using "1.hyps" [OF True body] 1 succ by simp
    finally show ?thesis by (simp add: dr)
  qed
qed

lemma getOffsetBeforeChunk_fold:
  "pow2_alignments C \<Longrightarrow> sint jj \<le> int (length C) \<Longrightarrow>
   getOffsetBeforeChunk (planner C) jj = Returns (offsetBefore_fold C (nat (sint jj)))"
  by (simp add: getOffsetBeforeChunk_def loop_fold offsetBefore_fold_def)

lemmas planner_eval =
  planner_def MemAllocatorHelper_def getTotalSize_def getOffsetBeforeChunk_def
  getOffsetBeforeChunk_loop.simps getOffsetBeforeChunk_body_def vec_at_def
  getSizePaddedToAlignment_def TLLM_CHECK_ERROR_def getChunkOffset_own_def word_sless_alt

lemma isPowerOfTwoI: "k < 31 \<Longrightarrow> sint a = 2 ^ k \<Longrightarrow> isPowerOfTwo a"
  by (auto simp: isPowerOfTwo_def)

lemma isPowerOfTwo_1 [simp]: "isPowerOfTwo 1"
  by (rule isPowerOfTwoI [of 0]) simp_all
lemma isPowerOfTwo_2 [simp]: "isPowerOfTwo 2"
  by (rule isPowerOfTwoI [of 1]) simp_all
lemma isPowerOfTwo_4 [simp]: "isPowerOfTwo 4"
  by (rule isPowerOfTwoI [of 2]) simp_all
lemma isPowerOfTwo_16 [simp]: "isPowerOfTwo 16"
  by (rule isPowerOfTwoI [of 4]) simp_all
lemma isPowerOfTwo_1024 [simp]: "isPowerOfTwo 1024"
  by (rule isPowerOfTwoI [of 10]) simp_all

lemma getChunkOffset_invalid:
  "\<not> valid_index C i \<Longrightarrow> getChunkOffset (planner C) i = Some Undefined"
  by (subst getChunkOffset.simps) (simp add: vec_at_map_invalid)

lemma getChunkOffset_not_reused:
  "valid_index C i \<Longrightarrow> \<not> reuseFirstChunk (chunk C i) \<Longrightarrow>
   getChunkOffset (planner C) i = Some (getChunkOffset_own (planner C) i)"
  by (subst getChunkOffset.simps) (simp add: vec_at_map_valid)

lemma getChunkOffset_reused:
  "valid_index C i \<Longrightarrow> reuseFirstChunk (chunk C i) \<Longrightarrow>
   getChunkOffset (planner C) i = getChunkOffset (planner C) 0"
  by (subst getChunkOffset.simps) (simp add: vec_at_map_valid)

lemma valid_index_0: "valid_index C i \<Longrightarrow> valid_index C 0"
  by (auto simp add: valid_index_def)

lemma own_pow2:
  "pow2_alignments C \<Longrightarrow> valid_index C i \<Longrightarrow>
   getChunkOffset_own (planner C) i
     = Returns (roundUp (offsetBefore_fold C (nat (sint i))) (alignment (chunk C i)))"
  by (simp add: getChunkOffset_own_def getOffsetBeforeChunk_fold valid_index_def
      vec_at_map_valid padded_pow2 pow2_alignments_chunk)

lemma roundUp_0: "isPowerOfTwo a \<Longrightarrow> roundUp 0 a = 0"
proof -
  assume "isPowerOfTwo a"
  then obtain k where k: "sint a = 2 ^ k" by (auto simp: isPowerOfTwo_def)
  have "((2::int) ^ k - 1) div 2 ^ k = 0" by (simp add: div_pos_pos_trivial)
  then show ?thesis by (simp add: roundUp_def k)
qed

lemma getChunkOffset_0:
  assumes "pow2_alignments C" "valid_index C 0" "\<not> reuseFirstChunk (chunk C 0)"
  shows "getChunkOffset (planner C) 0 = Some (Returns 0)"
  using assms
  by (simp add: getChunkOffset_not_reused own_pow2 offsetBefore_fold_def roundUp_0 pow2_alignments_chunk)

lemma stb_mod: "k \<le> Suc n \<Longrightarrow> signed_take_bit n v mod 2 ^ k = v mod 2 ^ k" for v :: int
proof -
  assume le: "k \<le> Suc n"
  have "take_bit k (signed_take_bit n v) = take_bit k v"
  proof (rule bit_eqI)
    fix m
    show "bit (take_bit k (signed_take_bit n v)) m = bit (take_bit k v) m"
    proof (cases "m < k")
      case True
      with le have "m \<le> n" by simp
      then show ?thesis by (simp add: bit_take_bit_iff bit_signed_take_bit_iff min_absorb2)
    next
      case False
      then show ?thesis by (simp add: bit_take_bit_iff)
    qed
  qed
  then show ?thesis by (simp add: take_bit_eq_mod)
qed

lemma roundUp_aligned: "isPowerOfTwo a \<Longrightarrow> sint (roundUp x a) mod sint a = 0"
proof -
  assume "isPowerOfTwo a"
  then obtain k where k: "k < 31" "sint a = 2 ^ k" by (auto simp: isPowerOfTwo_def)
  have "sint (roundUp x a) = signed_take_bit 31 ((sint x + 2 ^ k - 1) div 2 ^ k * 2 ^ k)"
    by (simp only: roundUp_def k(2) sint_sbintrunc') simp
  then show ?thesis using k by (simp add: stb_mod)
qed

lemma pow2_nat: "0 < n \<Longrightarrow> n AND (n - 1) = 0 \<Longrightarrow> \<exists>k. n = 2 ^ k" for n :: nat
proof (induction n rule: less_induct)
  case (less n)
  show ?case
  proof (cases "even n")
    case True
    then obtain m where m: "n = 2 * m" by (elim evenE)
    with less.prems have mpos: "0 < m" by simp
    have d: "(n - 1) div 2 = m - 1" using m mpos by simp
    have "n AND (n - 1) = 2 * (m AND (m - 1))"
      using m d by (subst and_nat_rec) simp
    with less.prems have "m AND (m - 1) = 0" by simp
    moreover have "m < n" using m mpos by simp
    ultimately obtain k where "m = 2 ^ k" using less.IH mpos by blast
    with m have "n = 2 ^ Suc k" by simp
    then show ?thesis by blast
  next
    case False
    then obtain m where m: "n = 2 * m + 1" by (elim oddE)
    have "n AND (n - 1) = 2 * (m AND m)"
      using m by (subst and_nat_rec) simp
    with less.prems have "m = 0" by simp
    with m have "n = 2 ^ 0" by simp
    then show ?thesis by blast
  qed
qed

lemma check_pow2:
  fixes a :: int32
  assumes pos: "1 \<le> sint a" and chk: "a AND (a - 1) = 0"
  shows "isPowerOfTwo a"
proof -
  have ne: "a \<noteq> 0" using pos by auto
  then have upos: "0 < unat a" by (simp add: unat_gt_0)
  have "unat (a - 1) = unat a - 1"
    using ne by (simp add: unat_minus_one)
  then have "unat a AND (unat a - 1) = unat (a AND (a - 1))"
    by (simp add: unsigned_and_eq)
  also have "\<dots> = 0" using chk by simp
  finally obtain k where k: "unat a = 2 ^ k"
    using pow2_nat [OF upos] by blast
  have "sint a < 2 ^ 32" using sint_lt [of a] by simp
  then have su: "sint a = uint a"
    using pos by (simp add: uint_sint take_bit_int_eq_self)
  have "sint a = 2 ^ k" using su k by (simp add: uint_nat) 
  moreover have "k < 31"
  proof -
    have "sint a < 2 ^ 31" using sint_lt [of a] by simp
    with \<open>sint a = 2 ^ k\<close> show ?thesis
      using power_less_imp_less_exp [of "2 :: int" k 31] by simp
  qed
  ultimately show ?thesis by (auto simp: isPowerOfTwo_def)
qed

lemma padded_throws_iff:
  "1 \<le> sint a \<Longrightarrow>
   getSizePaddedToAlignment sz a = Throws InvalidAlignment \<longleftrightarrow> \<not> isPowerOfTwo a"
  using check_pow2 [of a] pow2_check [of a]
  by (auto simp add: getSizePaddedToAlignment_def TLLM_CHECK_ERROR_def)

lemma padded_outcome:
  "(\<exists>p. getSizePaddedToAlignment sz a = Returns p) \<or> getSizePaddedToAlignment sz a = Throws InvalidAlignment"
  by (simp add: getSizePaddedToAlignment_def TLLM_CHECK_ERROR_def)

lemma body_outcome:
  "valid_index C ii \<Longrightarrow>
   (\<exists>t'. getOffsetBeforeChunk_body (planner C) ii t = Returns t')
   \<or> getOffsetBeforeChunk_body (planner C) ii t = Throws InvalidAlignment"
  using padded_outcome [of "sizeBytes (chunk C ii)" "alignment (chunk C ii)"]
  by (auto simp add: getOffsetBeforeChunk_body_def vec_at_map_valid)

lemma body_bad:
  "valid_index C ii \<Longrightarrow> \<not> isPowerOfTwo (alignment (chunk C ii)) \<Longrightarrow> 1 \<le> sint (alignment (chunk C ii)) \<Longrightarrow>
   getOffsetBeforeChunk_body (planner C) ii t = Throws InvalidAlignment"
  using padded_throws_iff [of "alignment (chunk C ii)" "sizeBytes (chunk C ii)"]
  by (simp add: getOffsetBeforeChunk_body_def vec_at_map_valid)

lemma loop_outcome:
  "0 \<le> sint ii \<Longrightarrow> sint jj \<le> int (length C) \<Longrightarrow>
   (\<exists>t'. getOffsetBeforeChunk_loop (planner C) jj ii t = Returns t')
   \<or> getOffsetBeforeChunk_loop (planner C) jj ii t = Throws InvalidAlignment"
proof (induction "planner C" jj ii t rule: getOffsetBeforeChunk_loop.induct)
  case (1 jj ii t)
  show ?case
  proof (cases "ii <s jj")
    case False
    then show ?thesis by (simp add: getOffsetBeforeChunk_loop.simps [of _ jj ii])
  next
    case True
    then have lt: "sint ii < sint jj" by (simp add: word_sless_alt)
    have valid: "valid_index C ii" using lt 1 by (simp add: valid_index_def)
    have succ: "sint (ii + 1) = sint ii + 1" using True by (rule sint_succ_below)
    from body_outcome [OF valid, of t] show ?thesis
    proof
      assume "\<exists>t'. getOffsetBeforeChunk_body (planner C) ii t = Returns t'"
      then obtain t' where b: "getOffsetBeforeChunk_body (planner C) ii t = Returns t'" ..
      have "getOffsetBeforeChunk_loop (planner C) jj ii t
          = getOffsetBeforeChunk_loop (planner C) jj (ii + 1) t'"
        using True b by (simp add: getOffsetBeforeChunk_loop.simps [of _ jj ii])
      then show ?thesis using "1.hyps" [OF True b] 1 succ by simp
    next
      assume "getOffsetBeforeChunk_body (planner C) ii t = Throws InvalidAlignment"
      then show ?thesis using True by (simp add: getOffsetBeforeChunk_loop.simps [of _ jj ii])
    qed
  qed
qed

lemma loop_bad:
  "0 \<le> sint ii \<Longrightarrow> sint jj \<le> int (length C) \<Longrightarrow>
   sint ii \<le> sint i \<Longrightarrow> sint i < sint jj \<Longrightarrow>
   \<not> isPowerOfTwo (alignment (chunk C i)) \<Longrightarrow> 1 \<le> sint (alignment (chunk C i)) \<Longrightarrow>
   getOffsetBeforeChunk_loop (planner C) jj ii t = Throws InvalidAlignment"
proof (induction "planner C" jj ii t rule: getOffsetBeforeChunk_loop.induct)
  case (1 jj ii t)
  have True: "ii <s jj" using 1 by (simp add: word_sless_alt)
  then have lt: "sint ii < sint jj" by (simp add: word_sless_alt)
  have valid: "valid_index C ii" using lt 1 by (simp add: valid_index_def)
  have succ: "sint (ii + 1) = sint ii + 1" using True by (rule sint_succ_below)
  from body_outcome [OF valid, of t] show ?case
  proof
    assume "\<exists>t'. getOffsetBeforeChunk_body (planner C) ii t = Returns t'"
    then obtain t' where b: "getOffsetBeforeChunk_body (planner C) ii t = Returns t'" ..
    have "ii \<noteq> i" using b body_bad [OF valid, of t] 1 by auto
    have "sint ii \<noteq> sint i"
    proof
      assume "sint ii = sint i"
      then have "(word_of_int (sint ii) :: int32) = word_of_int (sint i)" by simp
      with \<open>ii \<noteq> i\<close> show False by simp
    qed
    then have le: "sint (ii + 1) \<le> sint i" using 1 succ by simp
    have "getOffsetBeforeChunk_loop (planner C) jj ii t
        = getOffsetBeforeChunk_loop (planner C) jj (ii + 1) t'"
      using True b by (simp add: getOffsetBeforeChunk_loop.simps [of _ jj ii])
    then show ?thesis using "1.hyps" [OF True b] 1 succ le by simp
  next
    assume "getOffsetBeforeChunk_body (planner C) ii t = Throws InvalidAlignment"
    then show ?thesis using True by (simp add: getOffsetBeforeChunk_loop.simps [of _ jj ii])
  qed
qed

lemma obind_Throws_iff:
  "obind m f = Throws e \<longleftrightarrow> m = Throws e \<or> (\<exists>x. m = Returns x \<and> f x = Throws e)"
  by (cases m) simp_all

lemma vec_at_no_throw: "vec_at v i \<noteq> Throws e"
  by (simp add: vec_at_def)

lemma padded_no_index_error: "getSizePaddedToAlignment sz a \<noteq> Throws IndexOutOfRange"
  by (simp add: getSizePaddedToAlignment_def TLLM_CHECK_ERROR_def)

lemma body_no_index_error: "getOffsetBeforeChunk_body h ii t \<noteq> Throws IndexOutOfRange"
  by (auto simp add: getOffsetBeforeChunk_body_def obind_Throws_iff vec_at_no_throw padded_no_index_error)

lemma loop_no_index_error: "getOffsetBeforeChunk_loop h jj ii t \<noteq> Throws IndexOutOfRange"
proof (induction h jj ii t rule: getOffsetBeforeChunk_loop.induct)
  case (1 h jj ii t)
  show ?case
  proof (cases "ii <s jj")
    case False
    then show ?thesis by (simp add: getOffsetBeforeChunk_loop.simps [of h jj ii])
  next
    case True
    show ?thesis
    proof (cases "getOffsetBeforeChunk_body h ii t")
      case (Returns t')
      then show ?thesis using True "1.IH" [OF True Returns]
        by (simp add: getOffsetBeforeChunk_loop.simps [of h jj ii])
    next
      case (Throws e)
      then show ?thesis using True body_no_index_error [of h ii t]
        by (auto simp add: getOffsetBeforeChunk_loop.simps [of h jj ii])
    next
      case Undefined
      then show ?thesis using True
        by (simp add: getOffsetBeforeChunk_loop.simps [of h jj ii])
    qed
  qed
qed

lemma own_no_index_error: "getChunkOffset_own h ii \<noteq> Throws IndexOutOfRange"
  by (auto simp add: getChunkOffset_own_def getOffsetBeforeChunk_def obind_Throws_iff
      loop_no_index_error vec_at_no_throw padded_no_index_error)

lemma getChunkOffset_no_index_error:
  assumes "getChunkOffset h ii = Some y"
  shows "y \<noteq> Throws IndexOutOfRange"
proof (rule getChunkOffset.raw_induct
    [where P = "\<lambda>_ _ y. y \<noteq> Throws IndexOutOfRange" and h = h and ii = ii and y = y])
  fix f :: "MemAllocatorHelper \<Rightarrow> int32 \<Rightarrow> int32 outcome option"
    and h' :: MemAllocatorHelper and ii' :: int32 and y' :: "int32 outcome"
  assume IH: "\<And>a b y. f a b = Some y \<Longrightarrow> y \<noteq> Throws IndexOutOfRange"
  assume "(case vec_at (mFirstChunkReuse h') ii' of
        Returns reuse \<Rightarrow> if reuse then f h' 0 else Some (getChunkOffset_own h' ii')
      | Throws e \<Rightarrow> Some (Throws e)
      | Undefined \<Rightarrow> Some Undefined) = Some y'"
  then show "y' \<noteq> Throws IndexOutOfRange"
    using IH own_no_index_error [of h' ii']
    by (auto split: outcome.splits if_splits simp add: vec_at_no_throw)
next
  show "getChunkOffset h ii = Some y" by (rule assms)
qed

lemma own_outcome:
  assumes "valid_index C i"
  shows "(\<exists>v. getChunkOffset_own (planner C) i = Returns v)
       \<or> getChunkOffset_own (planner C) i = Throws InvalidAlignment"
proof -
  have *: "0 \<le> sint (0 :: int32)" "sint i \<le> int (length C)"
    using assms by (simp_all add: valid_index_def)
  from loop_outcome [OF *, of 0] show ?thesis
  proof
    assume "\<exists>t'. getOffsetBeforeChunk_loop (planner C) i 0 0 = Returns t'"
    then obtain t' where "getOffsetBeforeChunk_loop (planner C) i 0 0 = Returns t'" ..
    then show ?thesis
      using assms padded_outcome [of t' "alignment (chunk C i)"]
      by (auto simp add: getChunkOffset_own_def getOffsetBeforeChunk_def vec_at_map_valid)
  next
    assume "getOffsetBeforeChunk_loop (planner C) i 0 0 = Throws InvalidAlignment"
    then show ?thesis
      by (simp add: getChunkOffset_own_def getOffsetBeforeChunk_def)
  qed
qed

lemma own_bad:
  assumes "valid_index C i" and "1 \<le> sint (alignment (chunk C i))"
    and "\<not> isPowerOfTwo (alignment (chunk C i))"
  shows "getChunkOffset_own (planner C) i = Throws InvalidAlignment"
proof -
  have *: "0 \<le> sint (0 :: int32)" "sint i \<le> int (length C)"
    using assms by (simp_all add: valid_index_def)
  from loop_outcome [OF *, of 0] show ?thesis
  proof
    assume "\<exists>t'. getOffsetBeforeChunk_loop (planner C) i 0 0 = Returns t'"
    then obtain t' where "getOffsetBeforeChunk_loop (planner C) i 0 0 = Returns t'" ..
    then show ?thesis
      using assms padded_throws_iff [of "alignment (chunk C i)" t']
      by (simp add: getChunkOffset_own_def getOffsetBeforeChunk_def vec_at_map_valid)
  next
    assume "getOffsetBeforeChunk_loop (planner C) i 0 0 = Throws InvalidAlignment"
    then show ?thesis
      by (simp add: getChunkOffset_own_def getOffsetBeforeChunk_def)
  qed
qed

lemma not_pow2_3 [simp]: "\<not> isPowerOfTwo 3"
  using pow2_check [of 3] by auto

lemma pad_int_ge: "0 < a \<Longrightarrow> s \<le> pad_int s a"
proof -
  assume a: "0 < a"
  have "pad_int s a = (s + a - 1) - (s + a - 1) mod a"
    by (simp add: pad_int_def minus_mod_eq_div_mult)
  moreover have "(s + a - 1) mod a < a" using a by simp
  ultimately show ?thesis by linarith
qed

lemma pad_int_lt: "0 < a \<Longrightarrow> pad_int s a < s + a"
proof -
  assume a: "0 < a"
  have "pad_int s a = (s + a - 1) - (s + a - 1) mod a"
    by (simp add: pad_int_def minus_mod_eq_div_mult)
  moreover have "0 \<le> (s + a - 1) mod a" using a by simp
  ultimately show ?thesis by linarith
qed

lemma pad_int_mono: "0 < a \<Longrightarrow> s \<le> s' \<Longrightarrow> pad_int s a \<le> pad_int s' a"
  by (simp add: pad_int_def zdiv_mono1 mult_right_mono)

lemma pad_int_0: "0 < a \<Longrightarrow> pad_int 0 a = 0"
  by (simp add: pad_int_def div_pos_pos_trivial)

text \<open>\<open>pad_int\<close> is the smallest multiple of the alignment that is at least the size.\<close>

lemma pad_int_least:
  assumes "0 < a"
  shows "a dvd pad_int s a" and "s \<le> pad_int s a"
    and "a dvd m \<Longrightarrow> s \<le> m \<Longrightarrow> pad_int s a \<le> m"
proof -
  show "a dvd pad_int s a" by (simp add: pad_int_def)
  show "s \<le> pad_int s a" using assms by (rule pad_int_ge)
  assume "a dvd m" and sm: "s \<le> m"
  then obtain q where m: "m = q * a" by (auto simp add: dvd_def mult.commute)
  have e: "(q + 1) * a = q * a + a" by (simp add: distrib_right)
  have d: "(s + a - 1) div a * a = (s + a - 1) - (s + a - 1) mod a"
    by (simp add: minus_mod_eq_div_mult)
  have "0 \<le> (s + a - 1) mod a" using assms by simp
  with sm m d e have "(s + a - 1) div a * a < (q + 1) * a" by linarith
  then have "(s + a - 1) div a < q + 1"
    using assms by (rule mult_right_less_imp_less [OF _ less_imp_le])
  then have "(s + a - 1) div a \<le> q" by simp
  then have "(s + a - 1) div a * a \<le> q * a"
    using assms by (simp add: mult_right_mono)
  then show "pad_int s a \<le> m" by (simp add: pad_int_def m)
qed

lemma roundUp_pad_int: "roundUp sz a = word_of_int (pad_int (sint sz) (sint a))"
  by (simp only: roundUp_def pad_int_def)

lemma isPowerOfTwo_pos: "isPowerOfTwo a \<Longrightarrow> 0 < sint a"
  by (auto simp add: isPowerOfTwo_def)

lemma sint_roundUp:
  assumes "- (2 ^ 31) \<le> pad_int (sint s) (sint a)" and "pad_int (sint s) (sint a) < 2 ^ 31"
  shows "sint (roundUp s a) = pad_int (sint s) (sint a)"
proof -
  have "sint (roundUp s a) = signed_take_bit 31 (pad_int (sint s) (sint a))"
    by (simp only: roundUp_def pad_int_def sint_sbintrunc') simp
  then show ?thesis using assms by (simp add: signed_take_bit_int_eq_self)
qed

lemma sint_add_in_range:
  fixes x y :: int32
  assumes "- (2 ^ 31) \<le> sint x + sint y" and "sint x + sint y < 2 ^ 31"
  shows "sint (x + y) = sint x + sint y"
proof -
  have "sint (x + y) = signed_take_bit 31 (sint x + sint y)"
    by (simp add: sint_word_ariths)
  then show ?thesis using assms by (simp add: signed_take_bit_int_eq_self)
qed

lemma step_int_ge:
  assumes "0 < sint (alignment c)" and "0 \<le> sint (sizeBytes c)"
  shows "t \<le> step_int t c"
  using pad_int_ge [OF assms(1), of "sint (sizeBytes c)"] assms(2)
  by (simp add: step_int_def Let_def)

lemma step_int_le:
  assumes "0 < sint (alignment c)" and "0 \<le> sint (sizeBytes c)" and "0 \<le> t"
  shows "step_int t c \<le> t + (sint (sizeBytes c) + sint (alignment c))"
  using pad_int_lt [OF assms(1), of "sint (sizeBytes c)"] assms
  by (simp add: step_int_def Let_def)

lemma sint_step:
  assumes a: "isPowerOfTwo (alignment c)" and s: "0 \<le> sint (sizeBytes c)"
    and t: "0 \<le> sint t" and b: "sint t + (sint (sizeBytes c) + sint (alignment c)) < 2 ^ 31"
  shows "sint (offsetBefore_step t c) = step_int (sint t) c"
proof -
  let ?p = "pad_int (sint (sizeBytes c)) (sint (alignment c))"
  have pos: "0 < sint (alignment c)" using a by (rule isPowerOfTwo_pos)
  have ge: "sint (sizeBytes c) \<le> ?p" using pos by (rule pad_int_ge)
  have lt: "?p < sint (sizeBytes c) + sint (alignment c)" using pos by (rule pad_int_lt)
  have p: "sint (roundUp (sizeBytes c) (alignment c)) = ?p"
    using ge lt s t b by (intro sint_roundUp) simp_all
  have sum: "sint (t + roundUp (sizeBytes c) (alignment c)) = sint t + ?p"
    using ge lt s t b p sint_add_in_range [of t "roundUp (sizeBytes c) (alignment c)"] by simp
  show ?thesis
    by (simp add: offsetBefore_step_def step_int_def Let_def word_sless_alt p sum)
qed

lemma weight_simps [simp]:
  "weight [] = 0"
  "weight (c # cs) = sint (sizeBytes c) + sint (alignment c) + weight cs"
  by (simp_all add: weight_def)

lemma weight_nonneg: "list_all sane cs \<Longrightarrow> 0 \<le> weight cs"
  by (induction cs) (auto simp add: sane_def dest: isPowerOfTwo_pos)

lemma weight_length: "list_all sane cs \<Longrightarrow> int (length cs) \<le> weight cs"
  by (induction cs) (auto simp add: sane_def dest: isPowerOfTwo_pos)

lemma weight_append [simp]: "weight (xs @ ys) = weight xs + weight ys"
  by (simp add: weight_def)

lemma weight_take: "list_all sane cs \<Longrightarrow> weight (take j cs) \<le> weight cs"
proof -
  assume s: "list_all sane cs"
  then have "list_all sane (drop j cs)" by (simp add: list_all_iff) (meson in_set_dropD)
  then have "0 \<le> weight (drop j cs)" by (rule weight_nonneg)
  moreover have "weight cs = weight (take j cs) + weight (drop j cs)"
    by (metis append_take_drop_id weight_append)
  ultimately show ?thesis by simp
qed

lemma fold_int_ge: "list_all sane cs \<Longrightarrow> t \<le> foldl step_int t cs"
proof (induction cs arbitrary: t)
  case Nil
  then show ?case by simp
next
  case (Cons c cs)
  then have "t \<le> step_int t c"
    by (intro step_int_ge) (auto simp add: sane_def dest: isPowerOfTwo_pos)
  also have "\<dots> \<le> foldl step_int (step_int t c) cs" using Cons by simp
  finally show ?case by simp
qed

lemma fold_int_le: "list_all sane cs \<Longrightarrow> 0 \<le> t \<Longrightarrow> foldl step_int t cs \<le> t + weight cs"
proof (induction cs arbitrary: t)
  case Nil
  then show ?case by simp
next
  case (Cons c cs)
  have c: "0 < sint (alignment c)" "0 \<le> sint (sizeBytes c)"
    using Cons.prems by (auto simp add: sane_def dest: isPowerOfTwo_pos)
  have ge: "t \<le> step_int t c" using c by (rule step_int_ge)
  have le: "step_int t c \<le> t + (sint (sizeBytes c) + sint (alignment c))"
    using c Cons.prems by (intro step_int_le)
  have "foldl step_int (step_int t c) cs \<le> step_int t c + weight cs"
    using Cons ge by simp
  with le show ?case by simp
qed

lemma sint_fold:
  "list_all sane cs \<Longrightarrow> 0 \<le> sint t \<Longrightarrow> sint t + weight cs < 2 ^ 31 \<Longrightarrow>
   sint (foldl offsetBefore_step t cs) = foldl step_int (sint t) cs"
proof (induction cs arbitrary: t)
  case Nil
  then show ?case by simp
next
  case (Cons c cs)
  have c: "isPowerOfTwo (alignment c)" "0 \<le> sint (sizeBytes c)"
    using Cons.prems by (simp_all add: sane_def)
  have pos: "0 < sint (alignment c)" using c(1) by (rule isPowerOfTwo_pos)
  have w: "0 \<le> weight cs" using Cons.prems by (intro weight_nonneg) simp
  have st: "sint (offsetBefore_step t c) = step_int (sint t) c"
    using c Cons.prems w by (intro sint_step) simp_all
  have ge: "sint t \<le> step_int (sint t) c" using pos c(2) by (rule step_int_ge)
  have le: "step_int (sint t) c \<le> sint t + (sint (sizeBytes c) + sint (alignment c))"
    using pos c(2) Cons.prems by (intro step_int_le)
  have "sint (foldl offsetBefore_step (offsetBefore_step t c) cs)
      = foldl step_int (sint (offsetBefore_step t c)) cs"
    using Cons.prems ge le st by (intro Cons.IH) simp_all
  then show ?case by (simp add: st)
qed

lemma sane_all: "pow2_alignments C \<Longrightarrow> nonneg_sizes C \<Longrightarrow> list_all sane C"
  by (simp add: pow2_alignments_def nonneg_sizes_def sane_def list_all_iff)

lemma sane_take: "list_all sane C \<Longrightarrow> list_all sane (take j C)"
  by (simp add: list_all_iff) (meson in_set_takeD)

lemma sint_offsetBefore:
  assumes "list_all sane C" and "fits_int32 C"
  shows "sint (offsetBefore_fold C j) = offsetBefore_int C j"
    and "0 \<le> offsetBefore_int C j" and "offsetBefore_int C j \<le> weight (take j C)"
proof -
  have s: "list_all sane (take j C)" using assms(1) by (rule sane_take)
  have w: "weight (take j C) < 2 ^ 31"
    using weight_take [OF assms(1), of j] assms(2) by (simp add: fits_int32_def weight_def)
  show "sint (offsetBefore_fold C j) = offsetBefore_int C j"
    using sint_fold [OF s, of 0] w by (simp add: offsetBefore_fold_def offsetBefore_int_def)
  show "0 \<le> offsetBefore_int C j"
    using fold_int_ge [OF s, of 0] by (simp add: offsetBefore_int_def)
  show "offsetBefore_int C j \<le> weight (take j C)"
    using fold_int_le [OF s, of 0] by (simp add: offsetBefore_int_def)
qed

lemma offsetBefore_int_mono:
  assumes "list_all sane C" and "j \<le> k"
  shows "offsetBefore_int C j \<le> offsetBefore_int C k"
proof -
  have "take k C = take j C @ drop j (take k C)"
    using assms(2) by (metis append_take_drop_id min.absorb1 take_take)
  then have "offsetBefore_int C k = foldl step_int (offsetBefore_int C j) (drop j (take k C))"
    by (simp add: offsetBefore_int_def) (metis foldl_append)
  moreover have "list_all sane (drop j (take k C))"
    using assms(1) by (simp add: list_all_iff) (meson in_set_dropD in_set_takeD)
  ultimately show ?thesis using fold_int_ge by simp
qed

lemma sint_of_nat_small: "n < 2 ^ 31 \<Longrightarrow> sint (word_of_nat n :: int32) = int n"
  by (simp add: signed_of_nat signed_take_bit_int_eq_self)

lemma getTotalSize_fold:
  "pow2_alignments C \<Longrightarrow> length C < 2 ^ 31 \<Longrightarrow>
   getTotalSize (planner C) = Returns (offsetBefore_fold C (length C))"
  by (simp add: getTotalSize_def getOffsetBeforeChunk_fold sint_of_nat_small)

lemma fits_length: "list_all sane C \<Longrightarrow> fits_int32 C \<Longrightarrow> length C < 2 ^ 31"
  using weight_length [of C] by (simp add: fits_int32_def weight_def)

lemma pow2_take: "pow2_alignments C \<Longrightarrow> pow2_alignments (take m C)"
  by (simp add: pow2_alignments_def list_all_iff) (meson in_set_takeD)

lemma step_int_mono:
  assumes "shrinks c' c" and "t' \<le> t"
  shows "step_int t' c' \<le> step_int t c"
proof -
  have "pad_int (sint (sizeBytes c')) (sint (alignment c)) \<le> pad_int (sint (sizeBytes c)) (sint (alignment c))"
    using assms(1) by (intro pad_int_mono) (simp_all add: shrinks_def)
  then show ?thesis using assms by (auto simp add: step_int_def Let_def shrinks_def)
qed

lemma fold_int_mono:
  "list_all2 shrinks cs' cs \<Longrightarrow> t' \<le> t \<Longrightarrow> foldl step_int t' cs' \<le> foldl step_int t cs"
proof (induction cs' cs arbitrary: t' t rule: list_all2_induct)
  case Nil
  then show ?case by simp
next
  case (Cons c' cs' c cs)
  then show ?case by (simp add: step_int_mono)
qed

lemma zero_size_nth:
  "n < length C \<Longrightarrow> zero_size_at C k ! n = (if n = k then (C ! n)\<lparr>sizeBytes := 0\<rparr> else C ! n)"
  by (cases "k < length C") (auto simp add: zero_size_at_def nth_list_update)

lemma zero_size_length [simp]: "length (zero_size_at C k) = length C"
  by (simp add: zero_size_at_def)

lemma zero_size_shrinks:
  assumes "list_all sane C"
  shows "list_all2 shrinks (zero_size_at C k) C"
proof -
  have "\<And>n. n < length C \<Longrightarrow> shrinks (zero_size_at C k ! n) (C ! n)"
  proof -
    fix n assume n: "n < length C"
    then have "sane (C ! n)" using assms by (simp add: list_all_length)
    then show "shrinks (zero_size_at C k ! n) (C ! n)"
      using n by (auto simp add: zero_size_nth shrinks_def sane_def dest: isPowerOfTwo_pos)
  qed
  then show ?thesis by (simp add: list_all2_conv_all_nth)
qed

lemma shrinks_sane: "list_all2 shrinks C' C \<Longrightarrow> list_all sane C \<Longrightarrow> nonneg_sizes C' \<Longrightarrow> list_all sane C'"
  by (auto simp add: list_all2_conv_all_nth list_all_length shrinks_def sane_def nonneg_sizes_def)

lemma shrinks_weight: "list_all2 shrinks C' C \<Longrightarrow> weight C' \<le> weight C"
  by (induction C' C rule: list_all2_induct) (auto simp add: shrinks_def)

lemma zero_size_nonneg: "nonneg_sizes C \<Longrightarrow> nonneg_sizes (zero_size_at C k)"
  by (auto simp add: nonneg_sizes_def list_all_length zero_size_nth)

lemma zero_size_pow2: "pow2_alignments C \<Longrightarrow> pow2_alignments (zero_size_at C k)"
  by (auto simp add: pow2_alignments_def list_all_length zero_size_nth)

lemma zero_size_valid [simp]: "valid_index (zero_size_at C k) j = valid_index C j"
  by (simp add: valid_index_def)

lemma zero_size_chunk:
  "valid_index C j \<Longrightarrow> alignment (chunk (zero_size_at C k) j) = alignment (chunk C j)
     \<and> reuseFirstChunk (chunk (zero_size_at C k) j) = reuseFirstChunk (chunk C j)"
  using valid_index_nat [of C j] by (auto simp add: chunk_def zero_size_nth)

lemma fits_weight: "fits_int32 C \<longleftrightarrow> weight C < 2 ^ 31"
  by (simp add: fits_int32_def weight_def)

lemma weight_take_Suc:
  "n < length C \<Longrightarrow> weight (take (Suc n) C) = weight (take n C) + (sint (sizeBytes (C ! n)) + sint (alignment (C ! n)))"
  by (simp add: take_Suc_conv_app_nth)

lemma sint_aligned_offset:
  assumes sane: "list_all sane C" and fits: "fits_int32 C" and n: "n < length C"
  shows "sint (roundUp (offsetBefore_fold C n) (alignment (C ! n)))
       = pad_int (offsetBefore_int C n) (sint (alignment (C ! n)))"
proof -
  have c: "sane (C ! n)" using sane n by (simp add: list_all_length)
  then have pos: "0 < sint (alignment (C ! n))" and s: "0 \<le> sint (sizeBytes (C ! n))"
    by (auto simp add: sane_def dest: isPowerOfTwo_pos)
  have ob: "sint (offsetBefore_fold C n) = offsetBefore_int C n"
    "0 \<le> offsetBefore_int C n" "offsetBefore_int C n \<le> weight (take n C)"
    using sane fits by (rule sint_offsetBefore)+
  have "weight (take (Suc n) C) \<le> weight C" using sane by (rule weight_take)
  then have w: "weight (take n C) + (sint (sizeBytes (C ! n)) + sint (alignment (C ! n))) < 2 ^ 31"
    using fits n by (simp add: weight_take_Suc fits_weight)
  have ge: "offsetBefore_int C n \<le> pad_int (offsetBefore_int C n) (sint (alignment (C ! n)))"
    using pos by (rule pad_int_ge)
  have lt: "pad_int (offsetBefore_int C n) (sint (alignment (C ! n))) < offsetBefore_int C n + sint (alignment (C ! n))"
    using pos by (rule pad_int_lt)
  show ?thesis
    using ge lt ob w s by (intro sint_roundUp [of "offsetBefore_fold C n", unfolded ob(1)]) simp_all
qed

lemma ranges_intersect_iff:
  "ranges_intersect o1 n1 o2 n2 \<longleftrightarrow> (\<exists>x. o1 \<le> x \<and> x < o1 + n1 \<and> o2 \<le> x \<and> x < o2 + n2)"
proof
  assume "ranges_intersect o1 n1 o2 n2"
  then have "o1 \<le> max o1 o2 \<and> max o1 o2 < o1 + n1 \<and> o2 \<le> max o1 o2 \<and> max o1 o2 < o2 + n2"
    by (simp add: ranges_intersect_def)
  then show "\<exists>x. o1 \<le> x \<and> x < o1 + n1 \<and> o2 \<le> x \<and> x < o2 + n2" ..
next
  assume "\<exists>x. o1 \<le> x \<and> x < o1 + n1 \<and> o2 \<le> x \<and> x < o2 + n2"
  then show "ranges_intersect o1 n1 o2 n2" by (auto simp add: ranges_intersect_def)
qed

lemma sint_paddedSize:
  assumes sane: "list_all sane C" and fits: "fits_int32 C" and n: "n < length C"
  shows "sint (paddedSize (C ! n)) = pad_int (sint (sizeBytes (C ! n))) (sint (alignment (C ! n)))"
proof -
  have c: "sane (C ! n)" using sane n by (simp add: list_all_length)
  then have pos: "0 < sint (alignment (C ! n))" and s: "0 \<le> sint (sizeBytes (C ! n))"
    by (auto simp add: sane_def dest: isPowerOfTwo_pos)
  have "0 \<le> weight (take n C)" using sane by (intro weight_nonneg sane_take)
  moreover have "weight (take (Suc n) C) \<le> weight C" using sane by (rule weight_take)
  ultimately have w: "sint (sizeBytes (C ! n)) + sint (alignment (C ! n)) < 2 ^ 31"
    using fits n by (simp add: weight_take_Suc fits_weight)
  show ?thesis
    using pad_int_ge [OF pos, of "sint (sizeBytes (C ! n))"]
      pad_int_lt [OF pos, of "sint (sizeBytes (C ! n))"] s w
    unfolding paddedSize_def by (intro sint_roundUp) simp_all
qed

lemma offsetBefore_int_Suc:
  "n < length C \<Longrightarrow> offsetBefore_int C (Suc n) = step_int (offsetBefore_int C n) (C ! n)"
  by (simp add: offsetBefore_int_def take_Suc_conv_app_nth)

text \<open>
  \<open>getOffsetBeforeChunk\<close> adds padded sizes only; the padding that \<open>getChunkOffset\<close> adds
  to reach the alignment of a chunk is not carried to the chunks after it.  With
  alignments 2, 4, 2, 2 (those of the TMEM pool) chunk 1 is moved from 2 to 4 and chunk 2
  starts at 6, inside chunk 1.
\<close>

lemma unaccounted_alignment_padding:
  "pow2_alignments tmem_like \<and> nonneg_sizes tmem_like \<and> fits_int32 tmem_like
   \<and> getChunkOffset (planner tmem_like) 1 = Some (Returns 4) \<and> paddedSize (chunk tmem_like 1) = 4
   \<and> getChunkOffset (planner tmem_like) 2 = Some (Returns 6) \<and> paddedSize (chunk tmem_like 2) = 2
   \<and> ranges_intersect 4 4 6 2"
  by (simp add: tmem_like_def pow2_alignments_def nonneg_sizes_def fits_int32_def chunk_def
      paddedSize_def roundUp_def ranges_intersect_def getChunkOffset.simps planner_eval)

lemma obind_Returns_iff:
  "obind m f = Returns y \<longleftrightarrow> (\<exists>x. m = Returns x \<and> f x = Returns y)"
  by (cases m) simp_all

lemma makeHelper_planner: "makeHelper cs = planner (map descriptor cs)"
  by (simp add: makeHelper_def planner_def descriptor_def comp_def)

lemma within_implies:
  "getChunkOffset_within d h ii = Some r \<Longrightarrow> getChunkOffset h ii = Some r"
proof (induction d arbitrary: ii)
  case 0
  then show ?case
    by (subst getChunkOffset.simps)
       (auto simp add: getChunkOffset_within.simps [of 0] split: outcome.splits if_splits)
next
  case (Suc d)
  then show ?case
    by (subst getChunkOffset.simps)
       (auto simp add: getChunkOffset_within.simps [of "Suc d"] split: outcome.splits if_splits)
qed

lemma own_returns:
  "pow2_alignments C \<Longrightarrow> valid_index C i \<Longrightarrow> \<exists>v. getChunkOffset_own (planner C) i = Returns v"
  by (simp add: own_pow2)

lemma within_one:
  assumes "pow2_alignments C" and "\<not> reuseFirstChunk (chunk C 0)" and "valid_index C i"
  shows "\<exists>v. getChunkOffset_within 1 (planner C) i = Some (Returns v)
            \<and> getChunkOffset (planner C) i = Some (Returns v)"
proof -
  have v0: "valid_index C 0" using assms(3) by (rule valid_index_0)
  have z: "getChunkOffset_within 0 (planner C) 0 = Some (getChunkOffset_own (planner C) 0)"
    using v0 assms(2) by (simp add: getChunkOffset_within.simps [of 0] vec_at_map_valid)
  have "\<exists>v. getChunkOffset_within 1 (planner C) i = Some (Returns v)"
  proof (cases "reuseFirstChunk (chunk C i)")
    case True
    then have "getChunkOffset_within 1 (planner C) i = Some (getChunkOffset_own (planner C) 0)"
      using assms(3) z by (simp add: getChunkOffset_within.simps [of "Suc 0"] vec_at_map_valid)
    then show ?thesis using own_returns [OF assms(1) v0] by auto
  next
    case False
    then have "getChunkOffset_within 1 (planner C) i = Some (getChunkOffset_own (planner C) i)"
      using assms(3) by (simp add: getChunkOffset_within.simps [of "Suc 0"] vec_at_map_valid)
    then show ?thesis using own_returns [OF assms(1,3)] by auto
  qed
  then show ?thesis using within_implies by blast
qed

lemma smemChunkLoadA_shape:
  "smemChunkLoadA X a = Returns c \<Longrightarrow> snd (fst c) = 1024 \<and> snd c = False"
  by (auto simp add: smemChunkLoadA_def obind_Returns_iff)

lemma smemChunkLoadB_shape:
  "smemChunkLoadB X a = Returns c \<Longrightarrow> snd (fst c) = 1024 \<and> snd c = False"
  by (auto simp add: smemChunkLoadB_def obind_Returns_iff)

lemma smemChunkBShuffle_shape:
  "smemChunkBShuffle X a = Returns c \<Longrightarrow> snd (fst c) = 1024 \<and> snd c = False"
  by (auto simp add: smemChunkBShuffle_def obind_Returns_iff)

lemma smemChunkGmemC_shape:
  "smemChunkGmemC X a resIdx = Returns c \<Longrightarrow>
   snd (fst c) = 1024 \<and> snd c = (doesSplitKUseDsmem X (splitK a) \<and> resIdx = 0)"
  by (auto simp add: smemChunkGmemC_def Let_def obind_Returns_iff)

lemma smemChunkRowMax_shape:
  "smemChunkRowMax X a = Returns c \<Longrightarrow> snd (fst c) = 16 \<and> snd c = False"
  by (auto simp add: smemChunkRowMax_def Let_def obind_Returns_iff)

lemma smemChunkSliceK_shape:
  "smemChunkSliceK X a = Returns c \<Longrightarrow> snd (fst c) = 16 \<and> snd c = False"
  by (auto simp add: smemChunkSliceK_def Let_def obind_Returns_iff)

lemma tmemChunkD_shape:
  "tmemChunkD X a = Returns c \<Longrightarrow> snd (fst c) = 2 \<and> snd c = False"
  by (auto simp add: tmemChunkD_def obind_Returns_iff)

lemma tmemChunkA_shape:
  "tmemChunkA X a = Returns c \<Longrightarrow> snd (fst c) = 4 \<and> snd c = False"
  by (auto simp add: tmemChunkA_def obind_Returns_iff)

lemma tmemChunkSf_shape:
  "tmemChunkSf X a t = Returns c \<Longrightarrow> snd (fst c) = 2 \<and> snd c = False"
  by (auto simp add: tmemChunkSf_def Let_def obind_Returns_iff)

lemma collect_iff: "collect cs = Returns ys \<longleftrightarrow> cs = map Returns ys"
proof (induction cs arbitrary: ys)
  case Nil
  then show ?case by auto
next
  case (Cons c cs)
  show ?case
  proof (cases c)
    case (Returns x)
    then show ?thesis by (auto simp add: obind_Returns_iff Cons_eq_map_conv Cons)
  next
    case (Throws e)
    then show ?thesis by (auto simp add: Cons_eq_map_conv)
  next
    case Undefined
    then show ?thesis by (auto simp add: Cons_eq_map_conv)
  qed
qed

lemma map7:
  assumes "[a0, a1, a2, a3, a4, a5, a6] = map f ys"
  obtains c0 c1 c2 c3 c4 c5 c6 where "ys = [c0, c1, c2, c3, c4, c5, c6]"
    "a0 = f c0" "a1 = f c1" "a2 = f c2" "a3 = f c3" "a4 = f c4" "a5 = f c5" "a6 = f c6"
  using assms by (auto simp only: Cons_eq_map_conv Nil_is_map_conv)

lemma map4:
  assumes "[a0, a1, a2, a3] = map f ys"
  obtains c0 c1 c2 c3 where "ys = [c0, c1, c2, c3]"
    "a0 = f c0" "a1 = f c1" "a2 = f c2" "a3 = f c3"
  using assms by (auto simp only: Cons_eq_map_conv Nil_is_map_conv)

lemma KernelTraits_shape:
  assumes "KernelTraits X a = Returns traits"
  obtains smem tmem where "mSmemAllocatorHelper traits = makeHelper smem"
    and "mTmemAllocatorHelper traits = makeHelper tmem"
    and "map (\<lambda>c. snd (fst c)) smem = [1024, 1024, 1024, 1024, 1024, 16, 16]"
    and "map snd smem = [False, False, False, doesSplitKUseDsmem X (splitK a), False, False, False]"
    and "map (\<lambda>c. snd (fst c)) tmem = [2, 4, 2, 2]"
    and "map snd tmem = [False, False, False, False]"
proof -
  from assms obtain smem tmem where
    s: "collect [smemChunkLoadA X a, smemChunkLoadB X a, smemChunkBShuffle X a,
                 smemChunkGmemC X a 0, smemChunkGmemC X a 1,
                 smemChunkRowMax X a, smemChunkSliceK X a] = Returns smem"
    and t: "collect [tmemChunkD X a, tmemChunkA X a,
                 tmemChunkSf X a (tileM a), tmemChunkSf X a (tileN a)] = Returns tmem"
    and tr0: "Returns \<lparr>mSmemAllocatorHelper = makeHelper smem, mTmemAllocatorHelper = makeHelper tmem\<rparr>
        = Returns traits"
    unfolding KernelTraits_def obind_Returns_iff by blast
  from tr0 have tr: "traits = \<lparr>mSmemAllocatorHelper = makeHelper smem, mTmemAllocatorHelper = makeHelper tmem\<rparr>"
    by simp
  from s [unfolded collect_iff] obtain c0 c1 c2 c3 c4 c5 c6 where
    smem: "smem = [c0, c1, c2, c3, c4, c5, c6]"
    and c: "smemChunkLoadA X a = Returns c0" "smemChunkLoadB X a = Returns c1"
      "smemChunkBShuffle X a = Returns c2" "smemChunkGmemC X a 0 = Returns c3"
      "smemChunkGmemC X a 1 = Returns c4" "smemChunkRowMax X a = Returns c5"
      "smemChunkSliceK X a = Returns c6"
    by (rule map7)
  from t [unfolded collect_iff] obtain d0 d1 d2 d3 where
    tmem: "tmem = [d0, d1, d2, d3]"
    and d: "tmemChunkD X a = Returns d0" "tmemChunkA X a = Returns d1"
      "tmemChunkSf X a (tileM a) = Returns d2" "tmemChunkSf X a (tileN a) = Returns d3"
    by (rule map4)
  have s1: "map (\<lambda>c. snd (fst c)) smem = [1024, 1024, 1024, 1024, 1024, 16, 16]"
    using smemChunkLoadA_shape [OF c(1)] smemChunkLoadB_shape [OF c(2)]
      smemChunkBShuffle_shape [OF c(3)] smemChunkGmemC_shape [OF c(4)]
      smemChunkGmemC_shape [OF c(5)] smemChunkRowMax_shape [OF c(6)]
      smemChunkSliceK_shape [OF c(7)]
    by (simp add: smem)
  have s2: "map snd smem = [False, False, False, doesSplitKUseDsmem X (splitK a), False, False, False]"
    using smemChunkLoadA_shape [OF c(1)] smemChunkLoadB_shape [OF c(2)]
      smemChunkBShuffle_shape [OF c(3)] smemChunkGmemC_shape [OF c(4)]
      smemChunkGmemC_shape [OF c(5)] smemChunkRowMax_shape [OF c(6)]
      smemChunkSliceK_shape [OF c(7)]
    by (simp add: smem)
  have t1: "map (\<lambda>c. snd (fst c)) tmem = [2, 4, 2, 2]"
    using tmemChunkD_shape [OF d(1)] tmemChunkA_shape [OF d(2)]
      tmemChunkSf_shape [OF d(3)] tmemChunkSf_shape [OF d(4)]
    by (simp add: tmem)
  have t2: "map snd tmem = [False, False, False, False]"
    using tmemChunkD_shape [OF d(1)] tmemChunkA_shape [OF d(2)]
      tmemChunkSf_shape [OF d(3)] tmemChunkSf_shape [OF d(4)]
    by (simp add: tmem)
  from tr s1 s2 t1 t2 show ?thesis by (intro that [of smem tmem]) simp_all
qed

lemma pow2_descriptors:
  "pow2_alignments (map descriptor cs) \<longleftrightarrow> list_all isPowerOfTwo (map (\<lambda>c. snd (fst c)) cs)"
  by (simp add: pow2_alignments_def descriptor_def list_all_iff)

lemma pool_offsets:
  assumes al: "list_all isPowerOfTwo (map (\<lambda>c. snd (fst c)) cs)"
    and first: "map snd cs ! 0 = False" and i: "0 \<le> sint i" "sint i < int (length cs)"
  shows "\<exists>v. getChunkOffset_within 1 (makeHelper cs) i = Some (Returns v)
            \<and> getChunkOffset (makeHelper cs) i = Some (Returns v)"
proof -
  have v: "valid_index (map descriptor cs) i" using i by (simp add: valid_index_def)
  then have "cs \<noteq> []" by (auto simp add: valid_index_def)
  then have "\<not> reuseFirstChunk (chunk (map descriptor cs) 0)"
    using first by (cases cs) (simp_all add: chunk_def descriptor_def)
  then show ?thesis
    unfolding makeHelper_planner using al v by (intro within_one) (simp_all add: pow2_descriptors)
qed

text \<open>When chunk 0 is marked as reused, \<open>getChunkOffset(0)\<close> calls itself for ever.\<close>

lemma first_chunk_reused_diverges:
  assumes "vec_at (mFirstChunkReuse h) 0 = Returns True"
  shows "getChunkOffset h 0 = None"
proof -
  have "(\<lambda>f. f h 0 = None) getChunkOffset"
  proof (rule getChunkOffset.fixp_induct)
    show "option.admissible (\<lambda>f. curry f h 0 = None)"
      by (rule ccpo.admissibleI) (auto simp add: fun_lub_def flat_lub_def curry_def split: if_splits)
  next
    show "(\<lambda>h. \<lambda>ii :: int32. (None :: int32 outcome option)) h 0 = None" by simp
  next
    fix f :: "MemAllocatorHelper \<Rightarrow> int32 \<Rightarrow> int32 outcome option"
    assume "f h 0 = None"
    then show "(case vec_at (mFirstChunkReuse h) 0 of
        Returns reuse \<Rightarrow> if reuse then f h 0 else Some (getChunkOffset_own h 0)
      | Throws e \<Rightarrow> Some (Throws e)
      | Undefined \<Rightarrow> Some Undefined) = None"
      using assms by simp
  qed
  then show ?thesis .
qed

text \<open>The check of \<open>getSizePaddedToAlignment\<close> lets the alignment 0 pass.\<close>

lemma alignment_zero_passes: "getSizePaddedToAlignment sz 0 = Returns 0"
  by (simp add: getSizePaddedToAlignment_def TLLM_CHECK_ERROR_def)

lemma reused_first_chunk_example:
  "getChunkOffset (planner [\<lparr>sizeBytes = 8, alignment = 16, reuseFirstChunk = True\<rparr>]) 0 = None"
  by (rule first_chunk_reused_diverges) (simp add: vec_at_def)

section \<open>The claims\<close>

text \<open>
  C1 (as amended).  With alignments that are powers of two, non-negative sizes and the sum
  of size + alignment over the chunks below \<open>2 ^ 31\<close>: for chunks \<open>i < j\<close> that are both not
  marked as reused, when chunk \<open>i\<close> starts at \<open>getOffsetBeforeChunk(i)\<close> (that offset is
  already a multiple of its alignment), the range of chunk \<open>i\<close> ends at or before the start
  of chunk \<open>j\<close>, so the two ranges do not intersect.
\<close>

theorem non_reused_ranges_disjoint:
  assumes "pow2_alignments C" and "nonneg_sizes C" and "fits_int32 C"
    and "valid_index C i" and "valid_index C j" and "sint i < sint j"
    and "\<not> reuseFirstChunk (chunk C i)" and "\<not> reuseFirstChunk (chunk C j)"
    and "getChunkOffset (planner C) i = Some (getOffsetBeforeChunk (planner C) i)"
  shows "\<exists>oi oj. getChunkOffset (planner C) i = Some (Returns oi)
           \<and> getChunkOffset (planner C) j = Some (Returns oj)
           \<and> sint oi + sint (paddedSize (chunk C i)) \<le> sint oj
           \<and> \<not> ranges_intersect (sint oi) (sint (paddedSize (chunk C i)))
                                   (sint oj) (sint (paddedSize (chunk C j)))"
proof -
  let ?i = "nat (sint i)" and ?j = "nat (sint j)"
  have sane: "list_all sane C" using assms by (simp add: sane_all)
  have ni: "?i < length C" using assms(4) by (rule valid_index_nat)
  have nj: "?j < length C" using assms(5) by (rule valid_index_nat)
  have ij: "Suc ?i \<le> ?j" using assms(4,6) by (simp add: valid_index_def) linarith
  have oi: "getChunkOffset (planner C) i = Some (Returns (offsetBefore_fold C ?i))"
    using assms(1,4,9) by (simp add: getOffsetBeforeChunk_fold valid_index_def)
  have oj: "getChunkOffset (planner C) j
      = Some (Returns (roundUp (offsetBefore_fold C ?j) (alignment (C ! ?j))))"
    using assms(1,5,8) by (simp add: getChunkOffset_not_reused own_pow2 chunk_def)
  have pos: "0 < sint (alignment (C ! ?j))"
    using sane nj by (auto simp add: list_all_length sane_def dest: isPowerOfTwo_pos)
  have si: "sint (offsetBefore_fold C ?i) = offsetBefore_int C ?i"
    using sane assms(3) by (rule sint_offsetBefore)
  have pi: "sint (paddedSize (chunk C i)) = pad_int (sint (sizeBytes (C ! ?i))) (sint (alignment (C ! ?i)))"
    using sint_paddedSize [OF sane assms(3) ni] by (simp add: chunk_def)
  have e1: "offsetBefore_int C (Suc ?i)
      = offsetBefore_int C ?i + pad_int (sint (sizeBytes (C ! ?i))) (sint (alignment (C ! ?i)))"
    using ni assms(7) by (simp add: offsetBefore_int_Suc step_int_def Let_def chunk_def)
  have e2: "offsetBefore_int C (Suc ?i) \<le> offsetBefore_int C ?j"
    using sane ij by (rule offsetBefore_int_mono)
  have e3: "offsetBefore_int C ?j \<le> pad_int (offsetBefore_int C ?j) (sint (alignment (C ! ?j)))"
    using pos by (rule pad_int_ge)
  have e4: "sint (roundUp (offsetBefore_fold C ?j) (alignment (C ! ?j)))
      = pad_int (offsetBefore_int C ?j) (sint (alignment (C ! ?j)))"
    using sane assms(3) nj by (rule sint_aligned_offset)
  have le: "sint (offsetBefore_fold C ?i) + sint (paddedSize (chunk C i))
      \<le> sint (roundUp (offsetBefore_fold C ?j) (alignment (C ! ?j)))"
    using e1 e2 e3 by (simp add: si pi e4)
  then have "\<not> ranges_intersect (sint (offsetBefore_fold C ?i)) (sint (paddedSize (chunk C i)))
      (sint (roundUp (offsetBefore_fold C ?j) (alignment (C ! ?j)))) (sint (paddedSize (chunk C j)))"
    by (simp add: ranges_intersect_def)
  with oi oj le show ?thesis by simp
qed

text \<open>
  A reused chunk \<open>j\<close> whose padded size is below the total reserved before it starts at
  offset 0, as chunk 0 does: the two ranges intersect.
\<close>

theorem ranges_counterexample:
  "pow2_alignments reused_third \<and> \<not> reuseFirstChunk (chunk reused_third 0)
   \<and> valid_index reused_third 0 \<and> valid_index reused_third 2 \<and> sint (0 :: int32) < sint (2 :: int32)
   \<and> reuseFirstChunk (chunk reused_third 2)
   \<and> getOffsetBeforeChunk (planner reused_third) 2 = Returns 32
   \<and> paddedSize (chunk reused_third 0) = 16 \<and> paddedSize (chunk reused_third 2) = 16
   \<and> getChunkOffset (planner reused_third) 0 = Some (Returns 0)
   \<and> getChunkOffset (planner reused_third) 2 = Some (Returns 0)
   \<and> ranges_intersect 0 16 0 16"
  by (simp add: reused_third_def pow2_alignments_def chunk_def valid_index_def paddedSize_def
      roundUp_def ranges_intersect_def getChunkOffset.simps planner_eval)

theorem non_reused_ranges_disjoint_witness:
  "pow2_alignments tmem_like \<and> nonneg_sizes tmem_like \<and> fits_int32 tmem_like
   \<and> valid_index tmem_like 2 \<and> valid_index tmem_like 3 \<and> sint (2 :: int32) < sint (3 :: int32)
   \<and> \<not> reuseFirstChunk (chunk tmem_like 2) \<and> \<not> reuseFirstChunk (chunk tmem_like 3)
   \<and> getChunkOffset (planner tmem_like) 2 = Some (getOffsetBeforeChunk (planner tmem_like) 2)
   \<and> (\<exists>oi oj. getChunkOffset (planner tmem_like) 2 = Some (Returns oi)
          \<and> getChunkOffset (planner tmem_like) 3 = Some (Returns oj)
          \<and> sint oi + sint (paddedSize (chunk tmem_like 2)) \<le> sint oj
          \<and> \<not> ranges_intersect (sint oi) (sint (paddedSize (chunk tmem_like 2)))
                                  (sint oj) (sint (paddedSize (chunk tmem_like 3))))"
proof -
  have a: "pow2_alignments tmem_like" "nonneg_sizes tmem_like" "fits_int32 tmem_like"
    "valid_index tmem_like 2" "valid_index tmem_like 3" "sint (2 :: int32) < sint (3 :: int32)"
    "\<not> reuseFirstChunk (chunk tmem_like 2)" "\<not> reuseFirstChunk (chunk tmem_like 3)"
    by (simp_all add: tmem_like_def pow2_alignments_def nonneg_sizes_def fits_int32_def
        chunk_def valid_index_def)
  have b: "getChunkOffset (planner tmem_like) 2 = Some (getOffsetBeforeChunk (planner tmem_like) 2)"
    by (simp add: tmem_like_def getChunkOffset.simps planner_eval)
  from non_reused_ranges_disjoint [OF a b] a b show ?thesis by blast
qed

text \<open>
  C2 (as amended).  For the two chunks (100 bytes, alignment 16, not reused) and (50 bytes,
  alignment 16, not reused), \<open>chunkOffset(0)\<close> is 0, \<open>chunkOffset(1)\<close> is 112 and
  \<open>totalSize()\<close> is 176: the padded sizes 112 and 64 are added.
\<close>

theorem scenario1_layout:
  "getChunkOffset (planner scenario1) 0 = Some (Returns 0)
   \<and> getChunkOffset (planner scenario1) 1 = Some (Returns 112)
   \<and> getTotalSize (planner scenario1) = Returns 176"
  by (simp add: scenario1_def getChunkOffset.simps planner_eval)

text \<open>The total of this sequence is not the 128 that the scenario states.\<close>

theorem scenario1_total_counterexample:
  "getTotalSize (planner scenario1) \<noteq> Returns 128"
  by (simp add: scenario1_def planner_eval)

text \<open>
  C3 (as amended).  For an alignment of at least 1, computing a padded size throws
  \<open>InvalidAlignment\<close> exactly when the alignment is not a power of two.  For a chunk whose
  alignment is at least 1 and not a power of two: \<open>getChunkOffset\<close> of the chunk throws
  \<open>InvalidAlignment\<close> when the chunk is not marked as reused, and \<open>getOffsetBeforeChunk(j)\<close>
  throws it for every \<open>j\<close> after the chunk, up to the number of chunks.
\<close>

theorem invalid_alignment_raised:
  "(1 \<le> sint a \<longrightarrow>
      (getSizePaddedToAlignment sz a = Throws InvalidAlignment \<longleftrightarrow> \<not> isPowerOfTwo a))
   \<and> (valid_index C i \<and> 1 \<le> sint (alignment (chunk C i))
        \<and> \<not> isPowerOfTwo (alignment (chunk C i)) \<longrightarrow>
        (\<not> reuseFirstChunk (chunk C i) \<longrightarrow>
           getChunkOffset (planner C) i = Some (Throws InvalidAlignment))
        \<and> (\<forall>j. sint i < sint j \<and> sint j \<le> int (length C) \<longrightarrow>
             getOffsetBeforeChunk (planner C) j = Throws InvalidAlignment))"
proof (intro conjI impI allI)
  assume "1 \<le> sint a"
  then show "getSizePaddedToAlignment sz a = Throws InvalidAlignment \<longleftrightarrow> \<not> isPowerOfTwo a"
    by (rule padded_throws_iff)
next
  assume bad: "valid_index C i \<and> 1 \<le> sint (alignment (chunk C i))
      \<and> \<not> isPowerOfTwo (alignment (chunk C i))"
  assume "\<not> reuseFirstChunk (chunk C i)"
  then show "getChunkOffset (planner C) i = Some (Throws InvalidAlignment)"
    using bad by (simp add: getChunkOffset_not_reused own_bad)
next
  fix j :: int32
  assume bad: "valid_index C i \<and> 1 \<le> sint (alignment (chunk C i))
      \<and> \<not> isPowerOfTwo (alignment (chunk C i))"
  assume j: "sint i < sint j \<and> sint j \<le> int (length C)"
  have "getOffsetBeforeChunk_loop (planner C) j 0 0 = Throws InvalidAlignment"
    using bad j by (intro loop_bad [where i = i]) (simp_all add: valid_index_def)
  then show "getOffsetBeforeChunk (planner C) j = Throws InvalidAlignment"
    by (simp add: getOffsetBeforeChunk_def)
qed

text \<open>
  A reused chunk with alignment 3: \<open>getChunkOffset\<close> delegates to chunk 0 and returns 0
  without looking at the alignment of the chunk.
\<close>

theorem invalid_alignment_counterexample:
  "valid_index reused_bad_alignment 1
   \<and> 1 \<le> sint (alignment (chunk reused_bad_alignment 1))
   \<and> \<not> isPowerOfTwo (alignment (chunk reused_bad_alignment 1))
   \<and> getChunkOffset (planner reused_bad_alignment) 1 = Some (Returns 0)"
  by (simp add: reused_bad_alignment_def valid_index_def chunk_def getChunkOffset.simps planner_eval)

theorem invalid_alignment_raised_witness:
  "1 \<le> sint (3 :: int32) \<and> \<not> isPowerOfTwo 3
   \<and> getSizePaddedToAlignment 10 3 = Throws InvalidAlignment
   \<and> valid_index scenario4 0 \<and> \<not> reuseFirstChunk (chunk scenario4 0)
   \<and> getChunkOffset (planner scenario4) 0 = Some (Throws InvalidAlignment)
   \<and> getOffsetBeforeChunk (planner scenario4) 1 = Throws InvalidAlignment"
proof -
  have a: "1 \<le> sint (3 :: int32)" "\<not> isPowerOfTwo 3" by simp_all
  have b: "valid_index scenario4 0" "1 \<le> sint (alignment (chunk scenario4 0))"
    "\<not> isPowerOfTwo (alignment (chunk scenario4 0))" "\<not> reuseFirstChunk (chunk scenario4 0)"
    by (simp_all add: scenario4_def valid_index_def chunk_def)
  have c: "sint (0 :: int32) < sint (1 :: int32) \<and> sint (1 :: int32) \<le> int (length scenario4)"
    by (simp add: scenario4_def)
  note inst = invalid_alignment_raised [of 3 10 scenario4 0]
  from inst a have "getSizePaddedToAlignment 10 3 = Throws InvalidAlignment" by blast
  moreover from inst b have "getChunkOffset (planner scenario4) 0 = Some (Throws InvalidAlignment)"
    by blast
  moreover from inst b c have "getOffsetBeforeChunk (planner scenario4) 1 = Throws InvalidAlignment"
    by blast
  ultimately show ?thesis using a b by blast
qed

text \<open>
  C4 (as amended).  For an index outside the chunk sequence, \<open>getChunkOffset\<close> reads past
  the end of the vector of reuse flags, which is undefined behaviour; no call of
  \<open>getChunkOffset\<close> throws \<open>IndexOutOfRange\<close>.  For an index inside the sequence whose
  chunk 0 is not marked as reused, the call terminates and reads only in range: it returns
  an offset or throws \<open>InvalidAlignment\<close>, and it returns an offset when all alignments are
  powers of two.
\<close>

theorem out_of_range_is_unchecked:
  "(\<not> valid_index C i \<longrightarrow> getChunkOffset (planner C) i = Some Undefined)
   \<and> getChunkOffset (planner C) i \<noteq> Some (Throws IndexOutOfRange)
   \<and> (valid_index C i \<and> \<not> reuseFirstChunk (chunk C 0) \<longrightarrow>
        (\<exists>v. getChunkOffset (planner C) i = Some (Returns v))
        \<or> getChunkOffset (planner C) i = Some (Throws InvalidAlignment))
   \<and> (valid_index C i \<and> \<not> reuseFirstChunk (chunk C 0) \<and> pow2_alignments C \<longrightarrow>
        (\<exists>v. getChunkOffset (planner C) i = Some (Returns v)))"
proof (intro conjI impI)
  assume "\<not> valid_index C i"
  then show "getChunkOffset (planner C) i = Some Undefined"
    by (rule getChunkOffset_invalid)
next
  show "getChunkOffset (planner C) i \<noteq> Some (Throws IndexOutOfRange)"
    using getChunkOffset_no_index_error [of "planner C" i] by blast
next
  assume a: "valid_index C i \<and> \<not> reuseFirstChunk (chunk C 0)"
  then have v0: "valid_index C 0" using valid_index_0 by blast
  have e: "getChunkOffset (planner C) i = Some (getChunkOffset_own (planner C) i)
      \<or> getChunkOffset (planner C) i = Some (getChunkOffset_own (planner C) 0)"
    using a v0 getChunkOffset_reused [of C i] getChunkOffset_not_reused [of C i]
      getChunkOffset_not_reused [of C 0] by (cases "reuseFirstChunk (chunk C i)") auto
  then show "(\<exists>v. getChunkOffset (planner C) i = Some (Returns v))
      \<or> getChunkOffset (planner C) i = Some (Throws InvalidAlignment)"
    using a v0 own_outcome [of C i] own_outcome [of C 0] by auto
next
  assume a: "valid_index C i \<and> \<not> reuseFirstChunk (chunk C 0) \<and> pow2_alignments C"
  then have v0: "valid_index C 0" using valid_index_0 by blast
  show "\<exists>v. getChunkOffset (planner C) i = Some (Returns v)"
  proof (cases "reuseFirstChunk (chunk C i)")
    case True
    then show ?thesis using a v0 by (simp add: getChunkOffset_reused getChunkOffset_0)
  next
    case False
    then show ?thesis using a by (simp add: getChunkOffset_not_reused own_pow2)
  qed
qed

text \<open>On the empty sequence index 0 is not answered by an \<open>IndexOutOfRange\<close> error.\<close>

theorem out_of_range_counterexample:
  "getChunkOffset (planner []) 0 = Some Undefined
   \<and> getChunkOffset (planner []) 0 \<noteq> Some (Throws IndexOutOfRange)"
  by (simp add: getChunkOffset_invalid valid_index_def)

theorem out_of_range_is_unchecked_witness:
  "\<not> valid_index scenario1 2 \<and> getChunkOffset (planner scenario1) 2 = Some Undefined
   \<and> valid_index scenario4 0 \<and> \<not> reuseFirstChunk (chunk scenario4 0)
   \<and> ((\<exists>v. getChunkOffset (planner scenario4) 0 = Some (Returns v))
        \<or> getChunkOffset (planner scenario4) 0 = Some (Throws InvalidAlignment))
   \<and> valid_index scenario1 1 \<and> \<not> reuseFirstChunk (chunk scenario1 0) \<and> pow2_alignments scenario1
   \<and> (\<exists>v. getChunkOffset (planner scenario1) 1 = Some (Returns v))"
proof -
  have a: "\<not> valid_index scenario1 2" by (simp add: valid_index_def scenario1_def)
  have b: "valid_index scenario4 0 \<and> \<not> reuseFirstChunk (chunk scenario4 0)"
    by (simp add: valid_index_def scenario4_def chunk_def)
  have c: "valid_index scenario1 1 \<and> \<not> reuseFirstChunk (chunk scenario1 0) \<and> pow2_alignments scenario1"
    by (simp add: valid_index_def scenario1_def chunk_def pow2_alignments_def)
  from out_of_range_is_unchecked [of scenario1 2] a
  have d: "getChunkOffset (planner scenario1) 2 = Some Undefined" by blast
  from out_of_range_is_unchecked [of scenario4 0] b
  have e: "(\<exists>v. getChunkOffset (planner scenario4) 0 = Some (Returns v))
      \<or> getChunkOffset (planner scenario4) 0 = Some (Throws InvalidAlignment)" by blast
  from out_of_range_is_unchecked [of scenario1 1] c
  have f: "\<exists>v. getChunkOffset (planner scenario1) 1 = Some (Returns v)" by blast
  from a b c d e f show ?thesis by blast
qed

text \<open>
  C5.  With alignments that are powers of two and chunk 0 not marked as reused, the offset
  that \<open>getChunkOffset\<close> returns for a valid index is a multiple of the alignment of that
  chunk, reused or not.
\<close>

theorem chunkOffset_aligned:
  assumes "pow2_alignments C" and "\<not> reuseFirstChunk (chunk C 0)" and "valid_index C i"
  shows "\<exists>off. getChunkOffset (planner C) i = Some (Returns off)
           \<and> sint off mod sint (alignment (chunk C i)) = 0"
proof (cases "reuseFirstChunk (chunk C i)")
  case True
  have "getChunkOffset (planner C) i = Some (Returns 0)"
    using assms True valid_index_0 [of C i]
    by (simp add: getChunkOffset_reused getChunkOffset_0)
  then show ?thesis by simp
next
  case False
  have "getChunkOffset (planner C) i
      = Some (Returns (roundUp (offsetBefore_fold C (nat (sint i))) (alignment (chunk C i))))"
    using assms False by (simp add: getChunkOffset_not_reused own_pow2)
  then show ?thesis
    using assms by (simp add: roundUp_aligned pow2_alignments_chunk)
qed

theorem chunkOffset_aligned_witness:
  "pow2_alignments scenario3 \<and> \<not> reuseFirstChunk (chunk scenario3 0) \<and> valid_index scenario3 1
   \<and> (\<exists>off. getChunkOffset (planner scenario3) 1 = Some (Returns off)
          \<and> sint off mod sint (alignment (chunk scenario3 1)) = 0)"
proof -
  have a: "pow2_alignments scenario3"
    by (simp add: scenario3_def pow2_alignments_def)
  have b: "\<not> reuseFirstChunk (chunk scenario3 0)" "valid_index scenario3 1"
    by (simp_all add: scenario3_def chunk_def valid_index_def)
  from chunkOffset_aligned [OF a b] a b show ?thesis by blast
qed

text \<open>
  C6 (as amended).  With alignments that are powers of two, non-negative sizes and the sum
  of size + alignment over the chunks below \<open>2 ^ 31\<close>, \<open>getOffsetBeforeChunk(j)\<close> returns,
  for every \<open>j\<close> from 0 to the number of chunks, the value of the fold of the specification
  over the first \<open>j\<close> chunks; \<open>getTotalSize()\<close> is \<open>getOffsetBeforeChunk\<close> at the number of
  chunks, hence the fold over all chunks, and it is 0 for the empty sequence.
\<close>

theorem offsetBefore_is_fold:
  assumes "pow2_alignments C" and "nonneg_sizes C" and "fits_int32 C"
  shows "(\<forall>j. 0 \<le> sint j \<and> sint j \<le> int (length C) \<longrightarrow>
            (\<exists>t. getOffsetBeforeChunk (planner C) j = Returns t
                \<and> sint t = offsetBefore_int C (nat (sint j))))
       \<and> getTotalSize (planner C) = getOffsetBeforeChunk (planner C) (word_of_nat (length C))
       \<and> (\<exists>t. getTotalSize (planner C) = Returns t \<and> sint t = offsetBefore_int C (length C))
       \<and> getTotalSize (planner []) = Returns 0"
proof (intro conjI allI impI)
  have sane: "list_all sane C" using assms by (simp add: sane_all)
  fix j :: int32
  assume "0 \<le> sint j \<and> sint j \<le> int (length C)"
  then have "getOffsetBeforeChunk (planner C) j = Returns (offsetBefore_fold C (nat (sint j)))"
    using assms(1) by (simp add: getOffsetBeforeChunk_fold)
  moreover have "sint (offsetBefore_fold C (nat (sint j))) = offsetBefore_int C (nat (sint j))"
    using sane assms(3) by (rule sint_offsetBefore)
  ultimately show "\<exists>t. getOffsetBeforeChunk (planner C) j = Returns t
      \<and> sint t = offsetBefore_int C (nat (sint j))"
    by simp
next
  show "getTotalSize (planner C) = getOffsetBeforeChunk (planner C) (word_of_nat (length C))"
    by (simp add: getTotalSize_def)
next
  have sane: "list_all sane C" using assms by (simp add: sane_all)
  have len: "length C < 2 ^ 31" using sane assms(3) by (rule fits_length)
  have "getTotalSize (planner C) = Returns (offsetBefore_fold C (length C))"
    using assms(1) len by (rule getTotalSize_fold)
  moreover have "sint (offsetBefore_fold C (length C)) = offsetBefore_int C (length C)"
    using sane assms(3) by (rule sint_offsetBefore)
  ultimately show "\<exists>t. getTotalSize (planner C) = Returns t \<and> sint t = offsetBefore_int C (length C)"
    by simp
next
  show "getTotalSize (planner []) = Returns 0"
    by (simp add: getTotalSize_def getOffsetBeforeChunk_def getOffsetBeforeChunk_loop.simps word_sless_alt)
qed

text \<open>
  Two chunks of \<open>2 ^ 30\<close> bytes: the fold of the specification is \<open>2 ^ 31\<close>, and
  \<open>getOffsetBeforeChunk(2)\<close> returns \<open>- 2 ^ 31\<close>.
\<close>

theorem offsetBefore_is_fold_counterexample:
  "pow2_alignments two_large_chunks
   \<and> 0 \<le> sint (2 :: int32) \<and> sint (2 :: int32) \<le> int (length two_large_chunks)
   \<and> getOffsetBeforeChunk (planner two_large_chunks) 2 = Returns (- 2147483648)
   \<and> offsetBefore_int two_large_chunks 2 = 2147483648
   \<and> sint (- 2147483648 :: int32) \<noteq> 2147483648"
  by (simp add: two_large_chunks_def pow2_alignments_def planner_eval offsetBefore_int_def
      step_int_def pad_int_def)

theorem offsetBefore_is_fold_witness:
  "pow2_alignments scenario2 \<and> nonneg_sizes scenario2 \<and> fits_int32 scenario2
   \<and> 0 \<le> sint (2 :: int32) \<and> sint (2 :: int32) \<le> int (length scenario2)
   \<and> (\<exists>t. getOffsetBeforeChunk (planner scenario2) 2 = Returns t \<and> sint t = 2)
   \<and> (\<exists>t. getTotalSize (planner scenario2) = Returns t \<and> sint t = 1024)"
proof -
  have a: "pow2_alignments scenario2" "nonneg_sizes scenario2" "fits_int32 scenario2"
    by (simp_all add: scenario2_def pow2_alignments_def nonneg_sizes_def fits_int32_def)
  have b: "0 \<le> sint (2 :: int32) \<and> sint (2 :: int32) \<le> int (length scenario2)"
    by (simp add: scenario2_def)
  have f2: "offsetBefore_int scenario2 (nat (sint (2 :: int32))) = 2"
    by (simp add: scenario2_def offsetBefore_int_def step_int_def pad_int_def)
  have f3: "offsetBefore_int scenario2 (length scenario2) = 1024"
    by (simp add: scenario2_def offsetBefore_int_def step_int_def pad_int_def)
  note inst = offsetBefore_is_fold [OF a]
  from inst b have "\<exists>t. getOffsetBeforeChunk (planner scenario2) 2 = Returns t
      \<and> sint t = offsetBefore_int scenario2 (nat (sint (2 :: int32)))"
    by blast
  then have c: "\<exists>t. getOffsetBeforeChunk (planner scenario2) 2 = Returns t \<and> sint t = 2"
    by (simp only: f2)
  from inst have "\<exists>t. getTotalSize (planner scenario2) = Returns t
      \<and> sint t = offsetBefore_int scenario2 (length scenario2)"
    by blast
  then have d: "\<exists>t. getTotalSize (planner scenario2) = Returns t \<and> sint t = 1024"
    by (simp only: f3)
  from a b c d show ?thesis by blast
qed

text \<open>
  C7.  With alignments that are powers of two and chunk 0 not marked as reused,
  \<open>getChunkOffset\<close> of a chunk marked as reused is \<open>getChunkOffset(0)\<close>, which returns 0.
\<close>

theorem reused_chunk_aliases_first:
  assumes "pow2_alignments C" and "\<not> reuseFirstChunk (chunk C 0)" and "valid_index C i"
    and "reuseFirstChunk (chunk C i)"
  shows "getChunkOffset (planner C) i = getChunkOffset (planner C) 0
       \<and> getChunkOffset (planner C) 0 = Some (Returns 0)"
  using assms valid_index_0 [of C i]
  by (simp add: getChunkOffset_reused getChunkOffset_0)

theorem reused_chunk_aliases_first_witness:
  "pow2_alignments scenario3 \<and> \<not> reuseFirstChunk (chunk scenario3 0) \<and> valid_index scenario3 2
   \<and> reuseFirstChunk (chunk scenario3 2)
   \<and> getChunkOffset (planner scenario3) 2 = getChunkOffset (planner scenario3) 0
   \<and> getChunkOffset (planner scenario3) 0 = Some (Returns 0)"
proof -
  have a: "pow2_alignments scenario3"
    by (simp add: scenario3_def pow2_alignments_def)
  have b: "\<not> reuseFirstChunk (chunk scenario3 0)" "valid_index scenario3 2"
    "reuseFirstChunk (chunk scenario3 2)"
    by (simp_all add: scenario3_def chunk_def valid_index_def)
  from reused_chunk_aliases_first [OF a b] a b show ?thesis by blast
qed

text \<open>
  C8 (as amended).  With alignments that are powers of two, non-negative sizes and the sum
  of size + alignment over the chunks below \<open>2 ^ 31\<close>, \<open>getOffsetBeforeChunk(j)\<close> is
  non-decreasing in \<open>j\<close>, and \<open>getTotalSize()\<close> of the sequence is at least \<open>getTotalSize()\<close>
  of each of its prefixes.
\<close>

theorem totalSize_monotone:
  assumes "pow2_alignments C" and "nonneg_sizes C" and "fits_int32 C"
  shows "(\<forall>j k. 0 \<le> sint j \<and> sint j \<le> sint k \<and> sint k \<le> int (length C) \<longrightarrow>
            (\<exists>p t. getOffsetBeforeChunk (planner C) j = Returns p
                 \<and> getOffsetBeforeChunk (planner C) k = Returns t \<and> sint p \<le> sint t))
       \<and> (\<forall>m\<le>length C. \<exists>p t. getTotalSize (planner (take m C)) = Returns p
                 \<and> getTotalSize (planner C) = Returns t \<and> sint p \<le> sint t)"
proof (intro conjI allI impI)
  have sane: "list_all sane C" using assms by (simp add: sane_all)
  fix j k :: int32
  assume jk: "0 \<le> sint j \<and> sint j \<le> sint k \<and> sint k \<le> int (length C)"
  have "getOffsetBeforeChunk (planner C) j = Returns (offsetBefore_fold C (nat (sint j)))"
    and "getOffsetBeforeChunk (planner C) k = Returns (offsetBefore_fold C (nat (sint k)))"
    using assms(1) jk by (simp_all add: getOffsetBeforeChunk_fold)
  moreover have "nat (sint j) \<le> nat (sint k)" using jk by linarith
  then have "sint (offsetBefore_fold C (nat (sint j))) \<le> sint (offsetBefore_fold C (nat (sint k)))"
    using sane assms(3) by (simp add: sint_offsetBefore offsetBefore_int_mono)
  ultimately show "\<exists>p t. getOffsetBeforeChunk (planner C) j = Returns p
      \<and> getOffsetBeforeChunk (planner C) k = Returns t \<and> sint p \<le> sint t"
    by simp
next
  have sane: "list_all sane C" using assms by (simp add: sane_all)
  have len: "length C < 2 ^ 31" using sane assms(3) by (rule fits_length)
  fix m
  assume m: "m \<le> length C"
  have "length (take m C) < 2 ^ 31" using len by simp
  then have "getTotalSize (planner (take m C)) = Returns (offsetBefore_fold (take m C) (length (take m C)))"
    using assms(1) by (intro getTotalSize_fold pow2_take)
  then have p: "getTotalSize (planner (take m C)) = Returns (offsetBefore_fold C m)"
    using m by (simp add: offsetBefore_fold_def)
  have t: "getTotalSize (planner C) = Returns (offsetBefore_fold C (length C))"
    using assms(1) len by (rule getTotalSize_fold)
  have "sint (offsetBefore_fold C m) \<le> sint (offsetBefore_fold C (length C))"
    using sane assms(3) m by (simp add: sint_offsetBefore offsetBefore_int_mono)
  with p t show "\<exists>p t. getTotalSize (planner (take m C)) = Returns p
      \<and> getTotalSize (planner C) = Returns t \<and> sint p \<le> sint t"
    by simp
qed

text \<open>Two chunks of \<open>2 ^ 30\<close> bytes: the total wraps around and is below the total of the first chunk.\<close>

theorem totalSize_monotone_counterexample:
  "pow2_alignments two_large_chunks \<and> nonneg_sizes two_large_chunks
   \<and> getTotalSize (planner (take 1 two_large_chunks)) = Returns 1073741824
   \<and> getTotalSize (planner two_large_chunks) = Returns (- 2147483648)
   \<and> sint (- 2147483648 :: int32) < sint (1073741824 :: int32)"
  by (simp add: two_large_chunks_def pow2_alignments_def nonneg_sizes_def planner_eval)

theorem totalSize_monotone_witness:
  "pow2_alignments scenario2 \<and> nonneg_sizes scenario2 \<and> fits_int32 scenario2
   \<and> (\<exists>p t. getOffsetBeforeChunk (planner scenario2) 1 = Returns p
          \<and> getOffsetBeforeChunk (planner scenario2) 3 = Returns t \<and> sint p \<le> sint t)
   \<and> (\<exists>p t. getTotalSize (planner (take 2 scenario2)) = Returns p
          \<and> getTotalSize (planner scenario2) = Returns t \<and> sint p \<le> sint t)"
proof -
  have a: "pow2_alignments scenario2" "nonneg_sizes scenario2" "fits_int32 scenario2"
    by (simp_all add: scenario2_def pow2_alignments_def nonneg_sizes_def fits_int32_def)
  have b: "0 \<le> sint (1 :: int32) \<and> sint (1 :: int32) \<le> sint (3 :: int32)
      \<and> sint (3 :: int32) \<le> int (length scenario2)"
    by (simp add: scenario2_def)
  have c: "2 \<le> length scenario2" by (simp add: scenario2_def)
  note inst = totalSize_monotone [OF a]
  from inst b have "\<exists>p t. getOffsetBeforeChunk (planner scenario2) 1 = Returns p
      \<and> getOffsetBeforeChunk (planner scenario2) 3 = Returns t \<and> sint p \<le> sint t"
    by blast
  moreover from inst c have "\<exists>p t. getTotalSize (planner (take 2 scenario2)) = Returns p
      \<and> getTotalSize (planner scenario2) = Returns t \<and> sint p \<le> sint t"
    by blast
  ultimately show ?thesis using a by blast
qed

text \<open>
  C9 (as amended).  With alignments that are powers of two, non-negative sizes, the sum of
  size + alignment over the chunks below \<open>2 ^ 31\<close> and chunk 0 not marked as reused,
  replacing the size of one chunk by 0 does not increase \<open>getChunkOffset(j)\<close> for any valid
  index \<open>j\<close>.
\<close>

theorem zero_size_neutral:
  assumes "pow2_alignments C" and "nonneg_sizes C" and "fits_int32 C"
    and "\<not> reuseFirstChunk (chunk C 0)" and "valid_index C j"
  shows "\<exists>off' off. getChunkOffset (planner (zero_size_at C k)) j = Some (Returns off')
           \<and> getChunkOffset (planner C) j = Some (Returns off) \<and> sint off' \<le> sint off"
proof -
  let ?C' = "zero_size_at C k"
  have sane: "list_all sane C" using assms by (simp add: sane_all)
  have sh: "list_all2 shrinks ?C' C" using sane by (rule zero_size_shrinks)
  have pow': "pow2_alignments ?C'" using assms(1) by (rule zero_size_pow2)
  have sane': "list_all sane ?C'" using pow' assms(2) by (simp add: sane_all zero_size_nonneg)
  have fits': "fits_int32 ?C'"
    using shrinks_weight [OF sh] assms(3) by (simp add: fits_int32_def weight_def)
  have v0: "valid_index C 0" using assms(5) by (rule valid_index_0)
  have first': "\<not> reuseFirstChunk (chunk ?C' 0)" using assms(4) v0 by (simp add: zero_size_chunk)
  have n: "nat (sint j) < length C" using assms(5) by (rule valid_index_nat)
  show ?thesis
  proof (cases "reuseFirstChunk (chunk C j)")
    case True
    then have "getChunkOffset (planner C) j = Some (Returns 0)"
      using assms v0 by (simp add: getChunkOffset_reused getChunkOffset_0)
    moreover have "getChunkOffset (planner ?C') j = Some (Returns 0)"
      using True assms(5) v0 pow' first'
      by (simp add: getChunkOffset_reused getChunkOffset_0 zero_size_chunk)
    ultimately show ?thesis by simp
  next
    case False
    have a: "getChunkOffset (planner C) j
        = Some (Returns (roundUp (offsetBefore_fold C (nat (sint j))) (alignment (C ! nat (sint j)))))"
      using False assms by (simp add: getChunkOffset_not_reused own_pow2 chunk_def)
    have b: "getChunkOffset (planner ?C') j
        = Some (Returns (roundUp (offsetBefore_fold ?C' (nat (sint j))) (alignment (?C' ! nat (sint j)))))"
      using False assms(5) pow'
      by (simp add: getChunkOffset_not_reused own_pow2 zero_size_chunk chunk_def [symmetric])
    have al: "alignment (?C' ! nat (sint j)) = alignment (C ! nat (sint j))"
      using zero_size_chunk [OF assms(5), of k] by (simp add: chunk_def)
    have pos: "0 < sint (alignment (C ! nat (sint j)))"
      using sane n by (auto simp add: list_all_length sane_def dest: isPowerOfTwo_pos)
    have "offsetBefore_int ?C' (nat (sint j)) \<le> offsetBefore_int C (nat (sint j))"
      unfolding offsetBefore_int_def using sh by (intro fold_int_mono list_all2_takeI) simp_all
    then have "pad_int (offsetBefore_int ?C' (nat (sint j))) (sint (alignment (C ! nat (sint j))))
        \<le> pad_int (offsetBefore_int C (nat (sint j))) (sint (alignment (C ! nat (sint j))))"
      using pos by (intro pad_int_mono)
    then have "sint (roundUp (offsetBefore_fold ?C' (nat (sint j))) (alignment (?C' ! nat (sint j))))
        \<le> sint (roundUp (offsetBefore_fold C (nat (sint j))) (alignment (C ! nat (sint j))))"
      using sint_aligned_offset [OF sane assms(3) n] sint_aligned_offset [OF sane' fits', of "nat (sint j)"] n
      by (simp add: al)
    with a b show ?thesis by simp
  qed
qed

text \<open>
  A chunk of negative size, and three chunks whose sum wraps around: in both the offset of
  a later chunk grows when the size of chunk 0 is replaced by 0.
\<close>

theorem zero_size_counterexample:
  "pow2_alignments negative_size \<and> \<not> reuseFirstChunk (chunk negative_size 0)
   \<and> getChunkOffset (planner negative_size) 1 = Some (Returns (- 16))
   \<and> getChunkOffset (planner (zero_size_at negative_size 0)) 1 = Some (Returns 0)
   \<and> sint (- 16 :: int32) < sint (0 :: int32)
   \<and> pow2_alignments overflowing \<and> \<not> reuseFirstChunk (chunk overflowing 0)
   \<and> getChunkOffset (planner overflowing) 2 = Some (Returns (- 2147483648))
   \<and> getChunkOffset (planner (zero_size_at overflowing 0)) 2 = Some (Returns 1073741824)
   \<and> sint (- 2147483648 :: int32) < sint (1073741824 :: int32)"
  by (simp add: negative_size_def overflowing_def pow2_alignments_def chunk_def zero_size_at_def
      getChunkOffset.simps planner_eval)

theorem zero_size_neutral_witness:
  "pow2_alignments scenario1 \<and> nonneg_sizes scenario1 \<and> fits_int32 scenario1
   \<and> \<not> reuseFirstChunk (chunk scenario1 0) \<and> valid_index scenario1 1
   \<and> (\<exists>off' off. getChunkOffset (planner (zero_size_at scenario1 0)) 1 = Some (Returns off')
          \<and> getChunkOffset (planner scenario1) 1 = Some (Returns off) \<and> sint off' \<le> sint off)"
proof -
  have a: "pow2_alignments scenario1" "nonneg_sizes scenario1" "fits_int32 scenario1"
    "\<not> reuseFirstChunk (chunk scenario1 0)" "valid_index scenario1 1"
    by (simp_all add: scenario1_def pow2_alignments_def nonneg_sizes_def fits_int32_def
        chunk_def valid_index_def)
  from zero_size_neutral [OF a, of 0] a show ?thesis by blast
qed

text \<open>
  C10.  For every configuration for which the constructor of \<open>KernelTraits\<close> returns, the
  SMEM pool holds 7 chunks and the TMEM pool 4; no chunk is marked as reused except SMEM
  chunk 3, which is marked exactly when split-K uses DSMEM, so chunk 0 of either pool is
  never marked; every index from 0 to 6 (SMEM) and from 0 to 3 (TMEM) is answered by
  \<open>getChunkOffset\<close> with a value after at most one delegation to chunk 0, and so is every
  call the named accessors make.
\<close>

theorem kernel_traits_pools:
  assumes "KernelTraits X a = Returns traits"
  shows "length (mNumBytesAndAlignmentPerSmemChunk (mSmemAllocatorHelper traits)) = 7
       \<and> length (mNumBytesAndAlignmentPerSmemChunk (mTmemAllocatorHelper traits)) = 4
       \<and> mFirstChunkReuse (mSmemAllocatorHelper traits)
           = [False, False, False, doesSplitKUseDsmem X (splitK a), False, False, False]
       \<and> mFirstChunkReuse (mTmemAllocatorHelper traits) = [False, False, False, False]
       \<and> (\<forall>i. 0 \<le> sint i \<and> sint i < 7 \<longrightarrow>
             (\<exists>v. getChunkOffset_within 1 (mSmemAllocatorHelper traits) i = Some (Returns v)
                 \<and> getChunkOffset (mSmemAllocatorHelper traits) i = Some (Returns v)))
       \<and> (\<forall>i. 0 \<le> sint i \<and> sint i < 4 \<longrightarrow>
             (\<exists>v. getChunkOffset_within 1 (mTmemAllocatorHelper traits) i = Some (Returns v)
                 \<and> getChunkOffset (mTmemAllocatorHelper traits) i = Some (Returns v)))
       \<and> list_all (\<lambda>r. \<exists>v. r = Some (Returns v)) (smem_accessors traits @ tmem_accessors traits)"
proof -
  obtain smem tmem where
    hs: "mSmemAllocatorHelper traits = makeHelper smem"
    and ht: "mTmemAllocatorHelper traits = makeHelper tmem"
    and sa: "map (\<lambda>c. snd (fst c)) smem = [1024, 1024, 1024, 1024, 1024, 16, 16]"
    and sr: "map snd smem = [False, False, False, doesSplitKUseDsmem X (splitK a), False, False, False]"
    and ta: "map (\<lambda>c. snd (fst c)) tmem = [2, 4, 2, 2]"
    and tr: "map snd tmem = [False, False, False, False]"
    by (rule KernelTraits_shape [OF assms])
  have ls: "length smem = 7" using arg_cong [OF sr, of length] by simp
  have lt: "length tmem = 4" using arg_cong [OF tr, of length] by simp
  have so: "\<exists>v. getChunkOffset_within 1 (mSmemAllocatorHelper traits) i = Some (Returns v)
      \<and> getChunkOffset (mSmemAllocatorHelper traits) i = Some (Returns v)"
    if "0 \<le> sint i" "sint i < 7" for i
    unfolding hs using that by (intro pool_offsets) (simp_all add: sa sr ls)
  have to: "\<exists>v. getChunkOffset_within 1 (mTmemAllocatorHelper traits) i = Some (Returns v)
      \<and> getChunkOffset (mTmemAllocatorHelper traits) i = Some (Returns v)"
    if "0 \<le> sint i" "sint i < 4" for i
    unfolding ht using that by (intro pool_offsets) (simp_all add: ta tr lt)
  have sacc: "\<exists>v. getChunkOffset (mSmemAllocatorHelper traits) i = Some (Returns v)"
    if "0 \<le> sint i" "sint i < 7" for i
    using so [OF that] by blast
  have tacc: "\<exists>v. getChunkOffset (mTmemAllocatorHelper traits) i = Some (Returns v)"
    if "0 \<le> sint i" "sint i < 4" for i
    using to [OF that] by blast
  have acc: "list_all (\<lambda>r. \<exists>v. r = Some (Returns v)) (smem_accessors traits @ tmem_accessors traits)"
    by (simp add: smem_accessors_def tmem_accessors_def getSmemOffsetLoadA_def
        getSmemOffsetLoadB_def getSmemOffsetLoadAb_def getSmemOffsetLoadShuffleB_def
        getSmemOffsetGmemC_def getSmemOffsetRowMax_def getSmemOffsetSliceK_def
        getTmemOffsetD_def getTmemOffsetA_def getTmemOffsetSfA_def getTmemOffsetSfB_def
        sacc tacc)
  have "length (mNumBytesAndAlignmentPerSmemChunk (mSmemAllocatorHelper traits)) = 7"
    "length (mNumBytesAndAlignmentPerSmemChunk (mTmemAllocatorHelper traits)) = 4"
    "mFirstChunkReuse (mSmemAllocatorHelper traits)
           = [False, False, False, doesSplitKUseDsmem X (splitK a), False, False, False]"
    "mFirstChunkReuse (mTmemAllocatorHelper traits) = [False, False, False, False]"
    by (simp_all add: hs ht makeHelper_def MemAllocatorHelper_def ls lt sr tr)
  with so to acc show ?thesis by blast
qed

theorem kernel_traits_pools_witness:
  "KernelTraits example_headers example_args = Returns example_traits
   \<and> length (mNumBytesAndAlignmentPerSmemChunk (mSmemAllocatorHelper example_traits)) = 7
   \<and> length (mNumBytesAndAlignmentPerSmemChunk (mTmemAllocatorHelper example_traits)) = 4
   \<and> mFirstChunkReuse (mSmemAllocatorHelper example_traits)
       = [False, False, False, True, False, False, False]
   \<and> (\<exists>v. getChunkOffset_within 1 (mSmemAllocatorHelper example_traits) 3 = Some (Returns v)
          \<and> getChunkOffset (mSmemAllocatorHelper example_traits) 3 = Some (Returns v))
   \<and> (\<exists>v. getChunkOffset_within 1 (mTmemAllocatorHelper example_traits) 1 = Some (Returns v)
          \<and> getChunkOffset (mTmemAllocatorHelper example_traits) 1 = Some (Returns v))
   \<and> list_all (\<lambda>r. \<exists>v. r = Some (Returns v))
        (smem_accessors example_traits @ tmem_accessors example_traits)"
proof -
  have e: "KernelTraits example_headers example_args = Returns example_traits"
    by (simp add: KernelTraits_def example_headers_def example_args_def example_traits_def
        smemChunkLoadA_def smemChunkLoadB_def smemChunkBShuffle_def smemChunkGmemC_def
        smemChunkRowMax_def smemChunkSliceK_def tmemChunkD_def tmemChunkA_def tmemChunkSf_def
        div32_def ceilDiv_def makeHelper_def signed_divide_int_def word_sless_alt)
  have s: "0 \<le> sint (3 :: int32) \<and> sint (3 :: int32) < 7" by simp
  have t: "0 \<le> sint (1 :: int32) \<and> sint (1 :: int32) < 4" by simp
  note inst = kernel_traits_pools [OF e]
  from inst s have "\<exists>v. getChunkOffset_within 1 (mSmemAllocatorHelper example_traits) 3 = Some (Returns v)
      \<and> getChunkOffset (mSmemAllocatorHelper example_traits) 3 = Some (Returns v)"
    by blast
  moreover from inst t have "\<exists>v. getChunkOffset_within 1 (mTmemAllocatorHelper example_traits) 1 = Some (Returns v)
      \<and> getChunkOffset (mTmemAllocatorHelper example_traits) 1 = Some (Returns v)"
    by blast
  ultimately show ?thesis
    using inst e by (simp add: example_headers_def example_args_def)
qed

end
